theory Spec2Isabelle
  imports Complex_Main "HOL-Library.Sublist"
begin

section \<open>Python values used by the storyteller script\<close>

text \<open>
  A Python \<open>str\<close> is modelled as a \<open>string\<close> whose characters are read as the code
  points U+0000 to U+00FF. The characters that cannot be written inside a string
  literal get names.
\<close>

definition sq :: char where "sq = CHR 0x27"
definition dq :: char where "dq = CHR 0x22"
definition bs :: char where "bs = CHR 0x5C"
definition nl :: char where "nl = CHR 0x0A"
definition bt :: char where "bt = CHR 0x60"

text \<open>\<open>str.isspace\<close> of one character, on the code points below 256.\<close>

definition py_isspace :: "char \<Rightarrow> bool" where
  "py_isspace c = (of_char c \<in> {9, 10, 11, 12, 13, 28, 29, 30, 31, 32, 133, 160 :: nat})"

text \<open>\<open>s.strip()\<close>: leading and trailing whitespace removed.\<close>

definition strip :: "string \<Rightarrow> string" where
  "strip s = rev (dropWhile py_isspace (rev (dropWhile py_isspace s)))"

text \<open>
  \<open>s.replace(old, new)\<close>: the occurrences of \<open>old\<close> are found from the left and do
  not overlap; an empty \<open>old\<close> matches before every character and at the end.
\<close>

fun replace :: "string \<Rightarrow> string \<Rightarrow> string \<Rightarrow> string" where
  "replace old new [] = (if old = [] then new else [])"
| "replace old new (c # cs) =
     (if old = [] then new @ c # replace old new cs
      else if prefix old (c # cs) then new @ replace old new (drop (length old) (c # cs))
      else c # replace old new cs)"

text \<open>
  The values \<open>json.loads\<close> returns. A float is a finite rational, an infinity or a
  NaN; a JSON object is an association list read with \<open>map_of\<close>. Python's \<open>None\<close>
  is \<open>JNull\<close>.
\<close>

datatype pyfloat = Finite rat | PosInf | NegInf | NaN

datatype json =
    JNull
  | JBool bool
  | JInt int
  | JFloat pyfloat
  | JStr string
  | JArr "json list"
  | JObj "(string \<times> json) list"

text \<open>The truth value Python gives a value in \<open>if v:\<close>.\<close>

fun truthy :: "json \<Rightarrow> bool" where
  "truthy JNull = False"
| "truthy (JBool b) = b"
| "truthy (JInt i) = (i \<noteq> 0)"
| "truthy (JFloat f) = (f \<noteq> Finite 0)"
| "truthy (JStr s) = (s \<noteq> [])"
| "truthy (JArr xs) = (xs \<noteq> [])"
| "truthy (JObj kvs) = (kvs \<noteq> [])"

text \<open>The exceptions the script can meet.\<close>

datatype exn =
    ApiError
  | ValueError
  | JSONDecodeError
  | UnboundLocalError
  | KeyError
  | IndexError
  | TypeError
  | RecursionError
  | RequestException

text \<open>\<open>v[key]\<close> with a string key: only a dict can be subscripted by a string.\<close>

fun getitem :: "json \<Rightarrow> string \<Rightarrow> exn + json" where
  "getitem (JObj kvs) k = (case map_of kvs k of None \<Rightarrow> Inl KeyError | Some v \<Rightarrow> Inr v)"
| "getitem v k = Inl TypeError"

text \<open>\<open>v[0]\<close>. The keys of a decoded JSON object are strings, so \<open>0\<close> is never one.\<close>

fun getitem0 :: "json \<Rightarrow> exn + json" where
  "getitem0 (JArr []) = Inl IndexError"
| "getitem0 (JArr (x # xs)) = Inr x"
| "getitem0 (JStr []) = Inl IndexError"
| "getitem0 (JStr (c # cs)) = Inr (JStr [c])"
| "getitem0 (JObj kvs) = Inl KeyError"
| "getitem0 v = Inl TypeError"

text \<open>\<open>sep.join(items)\<close>: every item has to be a \<open>str\<close>.\<close>

fun py_join :: "string \<Rightarrow> json list \<Rightarrow> exn + string" where
  "py_join sep [] = Inr []"
| "py_join sep [JStr s] = Inr s"
| "py_join sep (JStr s # v # vs) =
     (case py_join sep (v # vs) of Inl e \<Rightarrow> Inl e | Inr r \<Rightarrow> Inr (s @ sep @ r))"
| "py_join sep (v # vs) = Inl TypeError"

section \<open>The services outside the script\<close>

datatype image = Image string

datatype gen_config = DefaultConfig | Temperature_0_9

text \<open>The reply of the text backend; reading its \<open>text\<close> property can raise.\<close>

datatype gemini_response = GenerateContentResponse (response_text: "exn + string")

record http_response =
  status_code :: nat
  http_body :: string

text \<open>
  What the script is given, each call raising or returning: the Stability key, the
  text backend (\<open>model.generate_content\<close>), \<open>requests.post\<close> to the image backend as a
  function of the text prompt of the payload, \<open>json.loads\<close> (also behind
  \<open>response.json()\<close>), decoding the base64 payload and opening it as an image, and
  \<open>str()\<close> of a value that is not a \<open>str\<close>.
\<close>

record env =
  STABILITY_API_KEY :: "string option"
  generate_content :: "string \<Rightarrow> gen_config \<Rightarrow> exn + gemini_response"
  requests_post :: "string \<Rightarrow> exn + http_response"
  json_loads :: "string \<Rightarrow> exn + json"
  open_image :: "json \<Rightarrow> exn + image"
  str_of :: "json \<Rightarrow> string"

text \<open>A value formatted inside an f-string.\<close>

definition py_format :: "env \<Rightarrow> json \<Rightarrow> string" where
  "py_format e v = (case v of JStr s \<Rightarrow> s | _ \<Rightarrow> str_of e v)"

definition format_optional :: "string option \<Rightarrow> string" where
  "format_optional v = (case v of None \<Rightarrow> ''None'' | Some s \<Rightarrow> s)"

text \<open>What a run of the script shows or sends, in order.\<close>

datatype message =
    AI_response_error exn
  | Stability_key_missing
  | Stability_http_error nat
  | Api_response
  | Raw_api_response_text
  | Stability_parse_error exn
  | Debug_hint
  | Stability_unexpected exn

datatype effect =
    Call_gemini string gen_config
  | Call_stability string
  | St_error message
  | St_warning message
  | St_code string
  | St_json json
  | St_text string
  | Html string

section \<open>AI and helper functions\<close>

definition world_bible_prompt :: "string \<Rightarrow> string \<Rightarrow> string \<Rightarrow> string" where
  "world_bible_prompt theme archetype contradiction = concat [ [nl],
     ''    You are a world-building AI. Create a '', [sq], ''World Bible'', [sq], '' for a new story. This document should be a rich, one-page summary establishing the world'', [sq], ''s history, main conflicts, character motivations, and tone. It must be consistent and creative.'', [nl],
     [nl],
     ''    Core Theme: '', theme, [nl],
     ''    Protagonist Archetype: '', archetype, [nl],
     ''    The World'', [sq], ''s Core Contradiction: '', contradiction, [nl],
     [nl],
     ''    Generate the World Bible based on these inputs.'', [nl],
     ''    '']"

text \<open>\<open>generate_world_bible\<close>: nothing is caught, so a failing backend call or an
  unreadable reply raises.\<close>

definition generate_world_bible ::
  "env \<Rightarrow> string \<Rightarrow> string \<Rightarrow> string \<Rightarrow> effect list \<times> (exn + string)" where
  "generate_world_bible e theme archetype contradiction =
     (let prompt = world_bible_prompt theme archetype contradiction in
      case generate_content e prompt DefaultConfig of
        Inl x \<Rightarrow> ([Call_gemini prompt DefaultConfig], Inl x)
      | Inr response \<Rightarrow> ([Call_gemini prompt DefaultConfig], response_text response))"

text \<open>The pieces of the chapter prompt between its three placeholders.\<close>

definition prompt_before_choice :: string where
  "prompt_before_choice = concat [ [nl],
     ''    You are a multi-persona Storytelling Engine. Follow these steps precisely.'', [nl],
     ''    The user'', [sq], ''s choice for the last chapter was: '', [dq]]"

definition prompt_before_context :: string where
  "prompt_before_context = concat [ [dq], ''.'', [nl],
     ''    The full story context so far is: '', [dq]]"

definition prompt_before_bible :: string where
  "prompt_before_bible = concat [ [dq], ''.'', [nl],
     ''    The secret World Bible for this universe is: '', [dq]]"

definition prompt_steps :: string where
  "prompt_steps = concat [ [dq], ''.'', [nl],
     [nl],
     ''    Step 1: Act as a Literary Artist. Write a rich, descriptive paragraph expanding on the user'', [sq], ''s choice.'', [nl],
     ''    Step 2: Act as a Plot Theorist. Based on the new paragraph, generate three distinct, single-sentence plot choices for the user. One must be a '', [sq], ''Wildcard'', [sq], ''.'', [nl],
     ''    Step 3: Act as an Art Director. Based on the paragraph from Step 1, write a concise, descriptive prompt for an AI image generator (comma-separated keywords).'', [nl],
     ''    Step 4: Format your entire response as a single, raw JSON object with NO markdown formatting, using these exact keys: '', [dq], ''narrative_chapter'', [dq], '', '', [dq], ''next_choices'', [dq], '', and '', [dq], ''image_prompt'', [dq], ''.'', [nl],
     ''    '']"

definition chapter_prompt :: "string \<Rightarrow> string \<Rightarrow> string \<Rightarrow> string" where
  "chapter_prompt story_context world_bible user_choice =
     prompt_before_choice @ user_choice @ prompt_before_context @ story_context
       @ prompt_before_bible @ world_bible @ prompt_steps"

text \<open>The reply with its whitespace and code-fence markers removed, as handed to
  \<open>json.loads\<close>.\<close>

definition cleaned_json_string :: "string \<Rightarrow> string" where
  "cleaned_json_string t =
     strip (replace [bt, bt, bt] [] (replace ([bt, bt, bt] @ ''json'') [] (strip t)))"

text \<open>
  \<open>generate_story_chapter\<close>. The \<open>except\<close> clause shows the error and then reads
  \<open>response.text\<close>: when the backend call raised, \<open>response\<close> was never assigned and
  the read raises \<open>UnboundLocalError\<close>; when reading the text raised, it raises again;
  when decoding raised, the raw text is shown and \<open>None\<close> is returned.
\<close>

definition generate_story_chapter ::
  "env \<Rightarrow> string \<Rightarrow> string option \<Rightarrow> json \<Rightarrow> effect list \<times> (exn + json)" where
  "generate_story_chapter e story_context world_bible user_choice =
     (let prompt = chapter_prompt story_context (format_optional world_bible)
                     (py_format e user_choice);
          call = Call_gemini prompt Temperature_0_9 in
      case generate_content e prompt Temperature_0_9 of
        Inl x \<Rightarrow> ([call, St_error (AI_response_error x)], Inl UnboundLocalError)
      | Inr response \<Rightarrow>
          (case response_text response of
             Inl x \<Rightarrow> ([call, St_error (AI_response_error x)], Inl x)
           | Inr t \<Rightarrow>
               (case json_loads e (cleaned_json_string t) of
                  Inl x \<Rightarrow> ([call, St_error (AI_response_error x), St_code t], Inr JNull)
                | Inr data \<Rightarrow> ([call], Inr data))))"

text \<open>\<open>data["artifacts"][0]["base64"]\<close>.\<close>

definition artifact_base64 :: "json \<Rightarrow> exn + json" where
  "artifact_base64 data =
     (case getitem data ''artifacts'' of
        Inl x \<Rightarrow> Inl x
      | Inr artifacts \<Rightarrow>
          (case getitem0 artifacts of
             Inl x \<Rightarrow> Inl x
           | Inr artifact \<Rightarrow> getitem artifact ''base64''))"

text \<open>
  The three \<open>except\<close> clauses of \<open>generate_image_stability\<close>, for an exception of the
  \<open>try\<close> block. The clause for \<open>HTTPError\<close> decodes the body of the response and
  catches \<open>json.JSONDecodeError\<close> only, so any other exception of the decoder leaves
  the function. The clause for \<open>KeyError\<close> and \<open>IndexError\<close> reads \<open>response.json()\<close>
  once more: \<open>response\<close> is unassigned when the request itself raised, and the
  decoder raises again when it raised before. The last clause catches the rest.
\<close>

definition http_error_clause :: "env \<Rightarrow> http_response \<Rightarrow> effect list \<times> (exn + image option)" where
  "http_error_clause e response =
     (case json_loads e (http_body response) of
        Inr error_details \<Rightarrow>
          ([St_error (Stability_http_error (status_code response)), St_error Api_response,
            St_json error_details], Inr None)
      | Inl x \<Rightarrow>
          if x = JSONDecodeError
          then ([St_error (Stability_http_error (status_code response)),
                 St_error Raw_api_response_text, St_text (http_body response)], Inr None)
          else ([St_error (Stability_http_error (status_code response))], Inl x))"

definition other_clauses ::
  "env \<Rightarrow> exn \<Rightarrow> http_response option \<Rightarrow> effect list \<times> (exn + image option)" where
  "other_clauses e x response =
     (if x = KeyError \<or> x = IndexError
      then
        (case response of
           None \<Rightarrow> ([St_error (Stability_parse_error x), St_error Debug_hint], Inl UnboundLocalError)
         | Some r \<Rightarrow>
             (case json_loads e (http_body r) of
                Inl y \<Rightarrow> ([St_error (Stability_parse_error x), St_error Debug_hint], Inl y)
              | Inr data \<Rightarrow>
                  ([St_error (Stability_parse_error x), St_error Debug_hint, St_json data],
                   Inr None)))
      else ([St_error (Stability_unexpected x)], Inr None))"

text \<open>
  \<open>generate_image_stability\<close>. \<open>raise_for_status\<close> raises \<open>HTTPError\<close> for a status
  from 400 to 599.
\<close>

definition generate_image_stability ::
  "env \<Rightarrow> json \<Rightarrow> effect list \<times> (exn + image option)" where
  "generate_image_stability e prompt =
     (if STABILITY_API_KEY e = None \<or> STABILITY_API_KEY e = Some []
      then ([St_warning Stability_key_missing], Inr None)
      else
        let text_prompt = ''cinematic, epic, high detail, masterpiece, '' @ py_format e prompt;
            call = Call_stability text_prompt;
            (out, r) =
              (case requests_post e text_prompt of
                 Inl x \<Rightarrow> other_clauses e x None
               | Inr response \<Rightarrow>
                   if 400 \<le> status_code response \<and> status_code response < 600
                   then http_error_clause e response
                   else
                     (case json_loads e (http_body response) of
                        Inl x \<Rightarrow> other_clauses e x (Some response)
                      | Inr data \<Rightarrow>
                          (case artifact_base64 data of
                             Inl x \<Rightarrow> other_clauses e x (Some response)
                           | Inr image_b64 \<Rightarrow>
                               (case open_image e image_b64 of
                                  Inl x \<Rightarrow> other_clauses e x (Some response)
                                | Inr img \<Rightarrow> ([], Inr (Some img))))))
        in (call # out, r))"

text \<open>The text as it is put between the double quotes of the narration script.\<close>

definition safe_text :: "string \<Rightarrow> string" where
  "safe_text t = strip (replace [nl] '' '' (replace [dq] [bs, dq] (replace [sq] [bs, sq] t)))"

definition speech_script :: "string \<Rightarrow> string" where
  "speech_script safe = concat [ [nl],
     ''        <script>'', [nl],
     ''            const synth = window.speechSynthesis;'', [nl],
     ''            if (synth.speaking) { synth.cancel(); }'', [nl],
     ''            const utterance = new SpeechSynthesisUtterance('', [dq], safe, [dq], '');'', [nl],
     ''            utterance.pitch = 1;'', [nl],
     ''            utterance.rate = 0.9;'', [nl],
     ''            synth.speak(utterance);'', [nl],
     ''        </script>'', [nl],
     ''    '']"

definition text_to_speech_player :: "string \<Rightarrow> effect list" where
  "text_to_speech_player t = [Html (speech_script (safe_text t))]"

section \<open>Session state and the handlers of the script\<close>

datatype stage = WorldForge | StoryStart | StoryCycle

record story_chapter =
  chapter_text :: json
  chapter_image :: "image option"

record story_state =
  app_stage :: stage
  world_bible :: "string option"
  story_chapters :: "story_chapter list"
  latest_choices :: json

text \<open>How a handler ends: it falls through, it calls \<open>st.rerun()\<close>, or an exception
  leaves it. What it wrote to the session before stays written.\<close>

datatype outcome = Completed | Rerun | Raised exn

type_synonym result = "effect list \<times> story_state \<times> outcome"

definition initial_state :: story_state where
  "initial_state =
     \<lparr>app_stage = WorldForge, world_bible = None, story_chapters = [], latest_choices = JArr []\<rparr>"

text \<open>The four keys are written together and deleted together: \<open>None\<close> is the session
  without them.\<close>

definition init_session :: "story_state option \<Rightarrow> story_state" where
  "init_session ss = (case ss of None \<Rightarrow> initial_state | Some s \<Rightarrow> s)"

definition world_forge_submit ::
  "env \<Rightarrow> string \<Rightarrow> string \<Rightarrow> string \<Rightarrow> story_state \<Rightarrow> result" where
  "world_forge_submit e theme archetype contradiction s =
     (case generate_world_bible e theme archetype contradiction of
        (out, Inl x) \<Rightarrow> (out, s, Raised x)
      | (out, Inr t) \<Rightarrow> (out, s\<lparr>world_bible := Some t, app_stage := StoryStart\<rparr>, Rerun))"

definition append_chapter :: "json \<Rightarrow> image option \<Rightarrow> story_state \<Rightarrow> story_state" where
  "append_chapter t img s =
     s\<lparr>story_chapters := story_chapters s @ [\<lparr>chapter_text = t, chapter_image = img\<rparr>]\<rparr>"

text \<open>\<open>story_chapters[0]["image"] = new_image\<close>; an empty list raises.\<close>

definition set_first_image :: "image option \<Rightarrow> story_state \<Rightarrow> exn + story_state" where
  "set_first_image img s =
     (case story_chapters s of
        [] \<Rightarrow> Inl IndexError
      | c # cs \<Rightarrow> Inr (s\<lparr>story_chapters := c\<lparr>chapter_image := img\<rparr> # cs\<rparr>))"

text \<open>The \<open>start_story_form\<close> handler.\<close>

definition story_start_submit :: "env \<Rightarrow> string \<Rightarrow> story_state \<Rightarrow> result" where
  "story_start_submit e initial_prompt s =
     (if initial_prompt = [] then ([], s, Completed)
      else
        let s1 = append_chapter (JStr initial_prompt) None s;
            (out1, r) = generate_story_chapter e [] (world_bible s1) (JStr initial_prompt) in
        case r of
          Inl x \<Rightarrow> (out1, s1, Raised x)
        | Inr ai_response \<Rightarrow>
            if \<not> truthy ai_response then (out1, s1, Completed)
            else
              (case getitem ai_response ''image_prompt'' of
                 Inl x \<Rightarrow> (out1, s1, Raised x)
               | Inr image_prompt \<Rightarrow>
                   let (out2, r2) = generate_image_stability e image_prompt in
                   (case r2 of
                      Inl x \<Rightarrow> (out1 @ out2, s1, Raised x)
                    | Inr new_image \<Rightarrow>
                        (case set_first_image new_image s1 of
                           Inl x \<Rightarrow> (out1 @ out2, s1, Raised x)
                         | Inr s2 \<Rightarrow>
                             (case getitem ai_response ''narrative_chapter'' of
                                Inl x \<Rightarrow> (out1 @ out2, s2, Raised x)
                              | Inr narrative_chapter \<Rightarrow>
                                  let s3 = append_chapter narrative_chapter None s2 in
                                  (case getitem ai_response ''next_choices'' of
                                     Inl x \<Rightarrow> (out1 @ out2, s3, Raised x)
                                   | Inr next_choices \<Rightarrow>
                                       (out1 @ out2,
                                        s3\<lparr>latest_choices := next_choices,
                                           app_stage := StoryCycle\<rparr>,
                                        Rerun)))))))"

text \<open>The body of the \<open>choice_form\<close> handler, for the choice the radio returned.\<close>

definition story_cycle_submit :: "env \<Rightarrow> json \<Rightarrow> story_state \<Rightarrow> result" where
  "story_cycle_submit e choice_made s =
     (case py_join '' '' (map chapter_text (story_chapters s)) of
        Inl x \<Rightarrow> ([], s, Raised x)
      | Inr story_so_far \<Rightarrow>
          let (out1, r) = generate_story_chapter e story_so_far (world_bible s) choice_made in
          (case r of
             Inl x \<Rightarrow> (out1, s, Raised x)
           | Inr ai_response \<Rightarrow>
               if \<not> truthy ai_response then (out1, s, Completed)
               else
                 (case getitem ai_response ''image_prompt'' of
                    Inl x \<Rightarrow> (out1, s, Raised x)
                  | Inr image_prompt \<Rightarrow>
                      let (out2, r2) = generate_image_stability e image_prompt in
                      (case r2 of
                         Inl x \<Rightarrow> (out1 @ out2, s, Raised x)
                       | Inr new_image \<Rightarrow>
                           (case getitem ai_response ''narrative_chapter'' of
                              Inl x \<Rightarrow> (out1 @ out2, s, Raised x)
                            | Inr narrative_chapter \<Rightarrow>
                                let s1 = append_chapter narrative_chapter new_image s in
                                (case getitem ai_response ''next_choices'' of
                                   Inl x \<Rightarrow> (out1 @ out2, s1, Raised x)
                                 | Inr next_choices \<Rightarrow>
                                     (out1 @ out2, s1\<lparr>latest_choices := next_choices\<rparr>,
                                      Rerun)))))))"

text \<open>
  The \<open>choice_form\<close>: it is only there when \<open>latest_choices\<close> is truthy. The radio is
  Streamlit's widget; what it returned is an input of the run, and the handler runs
  with it, whatever it is.
\<close>

definition choice_form :: "env \<Rightarrow> json \<Rightarrow> story_state \<Rightarrow> result" where
  "choice_form e choice_made s =
     (if \<not> truthy (latest_choices s) then ([], s, Completed)
      else story_cycle_submit e choice_made s)"

section \<open>One run of the script\<close>

text \<open>
  What the user did before the run: a form was submitted or a button was pressed.
  \<open>Weave\<close> carries the value the choice radio returned.
\<close>

datatype event =
    SetTheStage string string string
  | StartSaga string
  | Weave json
  | Narrate
  | Pause
  | Stop
  | Restart

definition pause_script :: string where
  "pause_script = ''<script>window.speechSynthesis.pause();</script>''"

definition cancel_script :: string where
  "cancel_script = ''<script>window.speechSynthesis.cancel();</script>''"

text \<open>The \<open>story_cycle\<close> branch: the narration text is joined whenever there are
  chapters, before any button is looked at.\<close>

definition story_cycle_page :: "env \<Rightarrow> event \<Rightarrow> story_state \<Rightarrow> result" where
  "story_cycle_page e ev s =
     (case (if story_chapters s = [] then Inr []
            else py_join '' '' (map chapter_text (story_chapters s))) of
        Inl x \<Rightarrow> ([], s, Raised x)
      | Inr full_story_text \<Rightarrow>
          (case ev of
             Narrate \<Rightarrow>
               if story_chapters s = [] then ([], s, Completed)
               else (text_to_speech_player full_story_text, s, Completed)
           | Pause \<Rightarrow>
               if story_chapters s = [] then ([], s, Completed)
               else ([Html pause_script], s, Completed)
           | Stop \<Rightarrow>
               if story_chapters s = [] then ([], s, Completed)
               else ([Html cancel_script], s, Completed)
           | Weave choice_made \<Rightarrow> choice_form e choice_made s
           | _ \<Rightarrow> ([], s, Completed)))"

text \<open>The page of the current stage, for the one event of this run.\<close>

definition page :: "env \<Rightarrow> event \<Rightarrow> story_state \<Rightarrow> result" where
  "page e ev s =
     (case app_stage s of
        WorldForge \<Rightarrow>
          (case ev of
             SetTheStage theme archetype contradiction \<Rightarrow>
               world_forge_submit e theme archetype contradiction s
           | _ \<Rightarrow> ([], s, Completed))
      | StoryStart \<Rightarrow>
          (case ev of
             StartSaga initial_prompt \<Rightarrow> story_start_submit e initial_prompt s
           | _ \<Rightarrow> ([], s, Completed))
      | StoryCycle \<Rightarrow> story_cycle_page e ev s)"

text \<open>
  A run, for a user who is logged in and a configured Google key: the page of the
  stage runs, and only if it fell through, the lines of the restart button are
  reached. The button is there outside \<open>world_forge\<close>; pressed, it deletes the four
  keys and reruns, and the next run writes the initial values. The state a run
  leaves is read after the initialisation of the next run.
\<close>

definition script :: "env \<Rightarrow> event \<Rightarrow> story_state \<Rightarrow> result" where
  "script e ev s =
     (case page e ev s of
        (out, s', Completed) \<Rightarrow>
          if app_stage s' \<noteq> WorldForge \<and> ev = Restart then (out, init_session None, Rerun)
          else (out, init_session (Some s'), Completed)
      | (out, s', r) \<Rightarrow> (out, init_session (Some s'), r))"

definition next_state :: "env \<Rightarrow> event \<Rightarrow> story_state \<Rightarrow> story_state" where
  "next_state e ev s = fst (snd (script e ev s))"

inductive reachable :: "story_state \<Rightarrow> bool" where
  reachable_initial: "reachable initial_state"
| reachable_step: "reachable s \<Longrightarrow> reachable (next_state e ev s)"

text \<open>
  Reading the characters after the opening double quote of a JavaScript string
  literal: a backslash takes the next character with it; a quote or a line feed that
  no backslash took is one the literal does not contain as text.
\<close>

fun unescaped :: "string \<Rightarrow> bool" where
  "unescaped [] = False"
| "unescaped [c] = (c = dq \<or> c = sq \<or> c = nl)"
| "unescaped (c # d # cs) =
     (if c = bs then unescaped cs
      else if c = dq \<or> c = sq \<or> c = nl then True
      else unescaped (d # cs))"

text \<open>
  Every occurrence of the character \<open>q\<close> has a backslash right before it; \<open>prev\<close> is
  the character before the text.
\<close>

fun guarded :: "char \<Rightarrow> char \<Rightarrow> string \<Rightarrow> bool" where
  "guarded q prev [] = True"
| "guarded q prev (c # cs) = ((c \<noteq> q \<or> prev = bs) \<and> guarded q c cs)"

text \<open>The chapter texts in order, one space between neighbours.\<close>

fun spaced :: "string list \<Rightarrow> string" where
  "spaced [] = []"
| "spaced [t] = t"
| "spaced (t # u # us) = t @ '' '' @ spaced (u # us)"

text \<open>What holds of the session in each stage, whatever the backends answered.\<close>

definition session_invariant :: "story_state \<Rightarrow> bool" where
  "session_invariant s =
     ((app_stage s = WorldForge \<longrightarrow> s = initial_state)
      \<and> (app_stage s = StoryStart \<longrightarrow> latest_choices s = JArr [])
      \<and> (app_stage s = StoryCycle \<longrightarrow> story_chapters s \<noteq> []))"

section \<open>A sample session\<close>

text \<open>A reply of the text backend as a JSON text, for a given list of choices.\<close>

definition demo_json_with :: "string \<Rightarrow> string" where
  "demo_json_with choices = concat [
     ''{'', [dq], ''narrative_chapter'', [dq], '': '', [dq], ''The hatch opened.'', [dq], '', '',
     [dq], ''next_choices'', [dq], '': '', choices, '', '',
     [dq], ''image_prompt'', [dq], '': '', [dq], ''starship, cryo pod, dawn'', [dq], ''}'']"

definition demo_json_text :: string where
  "demo_json_text = demo_json_with (concat [
     ''['', [dq], ''Wake the crew'', [dq], '', '', [dq], ''Stop the clock'', [dq], '', '',
     [dq], ''Open the airlock'', [dq], '']''])"

definition no_choices_json_text :: string where
  "no_choices_json_text = demo_json_with ''[]''"

definition fenced :: "string \<Rightarrow> string" where
  "fenced t = [bt, bt, bt] @ ''json'' @ [nl] @ t @ [nl] @ [bt, bt, bt] @ [nl]"

definition bare_fenced :: "string \<Rightarrow> string" where
  "bare_fenced t = [bt, bt, bt] @ [nl] @ t @ [nl] @ [bt, bt, bt]"

definition demo_choices :: json where
  "demo_choices = JArr [JStr ''Wake the crew'', JStr ''Stop the clock'', JStr ''Open the airlock'']"

definition demo_data :: "json \<Rightarrow> json" where
  "demo_data choices =
     JObj [(''narrative_chapter'', JStr ''The hatch opened.''),
           (''next_choices'', choices),
           (''image_prompt'', JStr ''starship, cryo pod, dawn'')]"

text \<open>A body of a hundred thousand opening brackets: the decoder gives up on its
  nesting with \<open>RecursionError\<close>.\<close>

definition nested_body :: string where
  "nested_body = replicate 100000 (CHR ''['')"

text \<open>The decoder on the texts of the sample; anything else is taken as not JSON.\<close>

definition demo_loads :: "string \<Rightarrow> exn + json" where
  "demo_loads t =
     (if t = demo_json_text then Inr (demo_data demo_choices)
      else if t = no_choices_json_text then Inr (demo_data (JArr []))
      else if t = nested_body then Inl RecursionError
      else Inl JSONDecodeError)"

text \<open>An environment without a Stability key whose text backend answers a world
  bible request with a fixed text and a chapter request with \<open>reply\<close>.\<close>

definition demo_env_with :: "exn + gemini_response \<Rightarrow> env" where
  "demo_env_with reply =
     \<lparr>STABILITY_API_KEY = None,
      generate_content =
        (\<lambda>prompt config. case config of
           DefaultConfig \<Rightarrow> Inr (GenerateContentResponse (Inr ''A drowned city.''))
         | Temperature_0_9 \<Rightarrow> reply),
      requests_post = (\<lambda>prompt. Inl RequestException),
      json_loads = demo_loads,
      open_image = (\<lambda>v. Inl ValueError),
      str_of = (\<lambda>v. [])\<rparr>"

definition demo_env :: env where
  "demo_env = demo_env_with (Inr (GenerateContentResponse (Inr (fenced demo_json_text))))"

definition bare_fence_env :: env where
  "bare_fence_env =
     demo_env_with (Inr (GenerateContentResponse (Inr (bare_fenced demo_json_text))))"

definition garbled_env :: env where
  "garbled_env = demo_env_with (Inr (GenerateContentResponse (Inr ''Sorry, no story today.'')))"

definition offline_env :: env where
  "offline_env = demo_env_with (Inl ApiError)"


text \<open>The same environment with a Stability key, and an image backend that answers
  with the status 500 and the nested body.\<close>

definition nested_env :: env where
  "nested_env =
     demo_env\<lparr>STABILITY_API_KEY := Some ''sk-demo'',
       requests_post := (\<lambda>prompt. Inr \<lparr>status_code = 500, http_body = nested_body\<rparr>)\<rparr>"

text \<open>The same with an image backend that answers 401 and a body that is not JSON.\<close>

definition rejecting_env :: env where
  "rejecting_env =
     demo_env\<lparr>STABILITY_API_KEY := Some ''sk-demo'',
       requests_post := (\<lambda>prompt. Inr \<lparr>status_code = 401, http_body = ''Unauthorized''\<rparr>)\<rparr>"

definition opening_line :: string where
  "opening_line = ''The last starship captain woke from cryo-sleep.''"

definition start_state :: story_state where
  "start_state =
     \<lparr>app_stage = StoryStart, world_bible = Some ''A drowned city.'', story_chapters = [],
      latest_choices = JArr []\<rparr>"

definition cycle_state :: "json \<Rightarrow> story_state" where
  "cycle_state choices =
     \<lparr>app_stage = StoryCycle, world_bible = Some ''A drowned city.'',
      story_chapters =
        [\<lparr>chapter_text = JStr opening_line, chapter_image = None\<rparr>,
         \<lparr>chapter_text = JStr ''The hatch opened.'', chapter_image = None\<rparr>],
      latest_choices = choices\<rparr>"

section \<open>Facts about the Python primitives\<close>

lemma replace_skip:
  "a \<notin> set xs \<Longrightarrow> replace (a # old) new (xs @ ys) = xs @ replace (a # old) new ys"
  by (induction xs) auto

lemma strip_padded:
  assumes "\<forall>c \<in> set pre. py_isspace c" "\<forall>c \<in> set post. py_isspace c"
    and "\<not> py_isspace a" "\<not> py_isspace b"
  shows "strip (pre @ a # xs @ b # post) = a # xs @ [b]"
proof -
  have 1: "dropWhile py_isspace (pre @ a # xs @ b # post) = a # xs @ b # post"
    using assms(1,3) dropWhile_append2 [of pre py_isspace "a # xs @ b # post"] by simp
  have 2: "dropWhile py_isspace (rev post @ b # rev xs @ [a]) = b # rev xs @ [a]"
    using assms(2,4) dropWhile_append2 [of "rev post" py_isspace "b # rev xs @ [a]"] by simp
  show ?thesis unfolding strip_def 1 using 2 by simp
qed

lemma bt_not_space: "\<not> py_isspace bt"
  by (simp add: py_isspace_def bt_def)

lemma cleaned_fenced:
  assumes "bt \<notin> set inner" "\<forall>c \<in> set pre. py_isspace c" "\<forall>c \<in> set post. py_isspace c"
  shows "cleaned_json_string (pre @ [bt, bt, bt] @ ''json'' @ inner @ [bt, bt, bt] @ post)
         = strip inner"
proof -
  have 1: "strip (pre @ [bt, bt, bt] @ ''json'' @ inner @ [bt, bt, bt] @ post)
            = [bt, bt, bt] @ ''json'' @ inner @ [bt, bt, bt]"
    using strip_padded [OF assms(2,3) bt_not_space bt_not_space,
        of "[bt, bt] @ ''json'' @ inner @ [bt, bt]"]
    by simp
  have 2: "replace ([bt, bt, bt] @ ''json'') [] ([bt, bt, bt] @ ''json'' @ inner @ [bt, bt, bt])
            = inner @ [bt, bt, bt]"
    using replace_skip [OF assms(1), of "[bt, bt] @ ''json''" "[]" "[bt, bt, bt]"]
    by simp
  have 3: "replace [bt, bt, bt] [] (inner @ [bt, bt, bt]) = inner"
    using replace_skip [OF assms(1), of "[bt, bt]" "[]" "[bt, bt, bt]"]
    by simp
  show ?thesis unfolding cleaned_json_string_def 1 2 3 ..
qed

lemma py_join_spaced: "py_join '' '' (map JStr ts) = Inr (spaced ts)"
  by (induction ts rule: spaced.induct) simp_all

lemma py_join_Inr:
  "py_join sep vs = Inr r \<Longrightarrow> \<exists>ts. vs = map JStr ts"
proof (induction sep vs arbitrary: r rule: py_join.induct)
  case (1 sep)
  show ?case by simp
next
  case (2 sep s)
  show ?case by (rule exI [of _ "[s]"]) simp
next
  case (3 sep s v vs)
  from "3.prems" obtain r' where "py_join sep (v # vs) = Inr r'"
    by (auto split: sum.splits)
  from "3.IH" [OF this] obtain ts where "v # vs = map JStr ts" ..
  then have "JStr s # v # vs = map JStr (s # ts)" by simp
  then show ?case by (rule exI [of _ "s # ts"])
qed simp_all

lemma subseq_spaced: "subseq (concat ts) (spaced ts)"
proof (induction ts rule: spaced.induct)
  case (3 t u us)
  have "subseq (concat (u # us)) ('' '' @ spaced (u # us))"
    using "3.IH" by (metis subseq_drop_many)
  then show ?case
    using subseq_append_iff by fastforce
qed simp_all


lemma replace_absent: "a \<notin> set s \<Longrightarrow> replace (a # old) new s = s"
  using replace_skip [of a s old new "[]"] by simp

lemma not_json_before_fence:
  assumes "\<not> prefix ''json'' inner"
  shows "\<not> prefix ''json'' (inner @ [bt, bt, bt])"
proof
  assume "prefix ''json'' (inner @ [bt, bt, bt])"
  with assms obtain us where us: "''json'' = inner @ us" "prefix us [bt, bt, bt]"
    by (auto simp: prefix_append)
  from assms us(1) have "us \<noteq> []" by auto
  with us(2) obtain vs where "us = bt # vs" by (cases us) auto
  with us(1) have "bt \<in> set ''json''" by (metis in_set_conv_decomp)
  then show False by (simp add: bt_def)
qed

lemma cleaned_bare_fence:
  assumes "bt \<notin> set inner" "\<not> prefix ''json'' inner"
    and "\<forall>c \<in> set pre. py_isspace c" "\<forall>c \<in> set post. py_isspace c"
  shows "cleaned_json_string (pre @ [bt, bt, bt] @ inner @ [bt, bt, bt] @ post) = strip inner"
proof -
  have 1: "strip (pre @ [bt, bt, bt] @ inner @ [bt, bt, bt] @ post)
            = [bt, bt, bt] @ inner @ [bt, bt, bt]"
    using strip_padded [OF assms(3,4) bt_not_space bt_not_space, of "[bt, bt] @ inner @ [bt, bt]"]
    by simp
  note nj = not_json_before_fence [OF assms(2)]
  have tail: "replace ([bt, bt, bt] @ ''json'') [] (inner @ [bt, bt, bt]) = inner @ [bt, bt, bt]"
    using replace_skip [OF assms(1), of "[bt, bt] @ ''json''" "[]" "[bt, bt, bt]"] by simp
  have 2: "replace ([bt, bt, bt] @ ''json'') [] ([bt, bt, bt] @ inner @ [bt, bt, bt])
            = [bt, bt, bt] @ inner @ [bt, bt, bt]"
  proof (cases inner)
    case Nil
    then show ?thesis by (simp add: bt_def)
  next
    case (Cons a rest)
    with assms(1) have "a \<noteq> bt" by auto
    with nj tail Cons show ?thesis by auto
  qed
  have 3: "replace [bt, bt, bt] [] ([bt, bt, bt] @ inner @ [bt, bt, bt]) = inner"
    using replace_skip [OF assms(1), of "[bt, bt]" "[]" "[bt, bt, bt]"] by simp
  show ?thesis unfolding cleaned_json_string_def 1 2 3 ..
qed

lemma strip_idem: "strip (strip t) = strip t"
proof -
  let ?d = "dropWhile py_isspace t"
  let ?u = "rev (dropWhile py_isspace (rev ?d))"
  have d: "?d = ?u @ rev (takeWhile py_isspace (rev ?d))"
    by (metis rev_append rev_rev_ident takeWhile_dropWhile_id)
  have "dropWhile py_isspace ?u = ?u"
  proof (cases "?u = []")
    case True
    show ?thesis unfolding True by simp
  next
    case False
    with d have "hd ?u = hd ?d" by (metis hd_append2)
    moreover from False d have "?d \<noteq> []" by (metis append_is_Nil_conv)
    then have "\<not> py_isspace (hd ?d)" using hd_dropWhile [of py_isspace t] by simp
    ultimately show ?thesis using False by (simp add: dropWhile_eq_self_iff)
  qed
  then show ?thesis by (simp add: strip_def)
qed

lemma set_strip: "set (strip t) \<subseteq> set t"
proof -
  have "set (dropWhile py_isspace (rev (dropWhile py_isspace t)))
        \<subseteq> set (rev (dropWhile py_isspace t))"
    using set_dropWhileD by fastforce
  also have "\<dots> \<subseteq> set t"
    using set_dropWhileD [of _ py_isspace t] by auto
  finally show ?thesis by (simp add: strip_def)
qed

lemma cleaned_plain: "bt \<notin> set t \<Longrightarrow> cleaned_json_string t = strip t"
proof -
  assume "bt \<notin> set t"
  moreover note set_strip [of t]
  ultimately have "bt \<notin> set (strip t)" by blast
  then show ?thesis
    using replace_absent [of bt "strip t" "[bt, bt] @ ''json''" "[]"]
      replace_absent [of bt "strip t" "[bt, bt]" "[]"]
    by (simp add: cleaned_json_string_def strip_idem)
qed

lemma replace_fence_head:
  "prefix [bt] (replace [bt, bt, bt] [] s) \<Longrightarrow> prefix [bt] s"
  by (cases s) (auto split: if_splits)

lemma replace_fence_head2:
  "prefix [bt, bt] (replace [bt, bt, bt] [] s) \<Longrightarrow> prefix [bt, bt] s"
proof (cases s)
  case Nil
  assume "prefix [bt, bt] (replace [bt, bt, bt] [] s)"
  with Nil show ?thesis by simp
next
  case (Cons c cs)
  assume p: "prefix [bt, bt] (replace [bt, bt, bt] [] s)"
  show ?thesis
  proof (cases "prefix [bt, bt, bt] s")
    case True
    then show ?thesis by (auto simp: prefix_def)
  next
    case False
    with p Cons have "c = bt" "prefix [bt] (replace [bt, bt, bt] [] cs)" by auto
    with replace_fence_head [of cs] Cons show ?thesis by simp
  qed
qed

lemma replace_fence_free_aux:
  "old = [bt, bt, bt] \<Longrightarrow> new = [] \<Longrightarrow> \<not> sublist [bt, bt, bt] (replace old new s)"
proof (induction old new s rule: replace.induct)
  case (1 old new)
  then show ?case by simp
next
  case (2 old new c cs)
  show ?case
  proof (cases "prefix old (c # cs)")
    case True
    with 2 show ?thesis by simp
  next
    case False
    have "\<not> prefix [bt, bt, bt] (c # replace [bt, bt, bt] [] cs)"
    proof
      assume "prefix [bt, bt, bt] (c # replace [bt, bt, bt] [] cs)"
      then have "c = bt" "prefix [bt, bt] (replace [bt, bt, bt] [] cs)" by auto
      with replace_fence_head2 [of cs] have "prefix [bt, bt, bt] (c # cs)" by simp
      with False "2.prems" show False by simp
    qed
    with 2 False show ?thesis by (simp add: sublist_Cons_right)
  qed
qed

lemma sublist_strip: "sublist (strip t) t"
proof -
  have "sublist (rev (strip t)) (rev (dropWhile py_isspace t))"
    by (simp add: strip_def)
  then have "sublist (strip t) (dropWhile py_isspace t)" by simp
  then show ?thesis using sublist_dropWhile sublist_order.order.trans by blast
qed

lemma cleaned_fence_free: "\<not> sublist [bt, bt, bt] (cleaned_json_string t)"
  unfolding cleaned_json_string_def
  using replace_fence_free_aux sublist_strip sublist_order.order.trans by blast


section \<open>The narrative generator\<close>

lemma nested_body_head: "nested_body = CHR ''['' # replicate 99999 (CHR ''['')"
proof -
  have "(100000::nat) = Suc 99999" by simp
  then show ?thesis by (simp only: nested_body_def replicate_Suc)
qed

lemma demo_loads_demo: "demo_loads demo_json_text = Inr (demo_data demo_choices)"
  by (simp add: demo_loads_def)


lemma demo_loads_garbled: "demo_loads ''Sorry, no story today.'' = Inl JSONDecodeError"
  by (simp add: demo_loads_def demo_json_text_def no_choices_json_text_def demo_json_with_def
        nested_body_head)

lemma demo_loads_unauthorized: "demo_loads ''Unauthorized'' = Inl JSONDecodeError"
  by (simp add: demo_loads_def demo_json_text_def no_choices_json_text_def demo_json_with_def
        nested_body_head)

lemma demo_loads_nested: "demo_loads nested_body = Inl RecursionError"
proof -
  have "nested_body \<noteq> demo_json_text" "nested_body \<noteq> no_choices_json_text"
    by (simp_all add: nested_body_head demo_json_text_def no_choices_json_text_def
          demo_json_with_def)
  then show ?thesis by (simp add: demo_loads_def)
qed

lemma demo_json_no_backtick: "bt \<notin> set demo_json_text" "bt \<notin> set no_choices_json_text"
  by (simp_all add: demo_json_text_def no_choices_json_text_def demo_json_with_def bt_def dq_def)

lemma strip_demo_json:
  "strip ([nl] @ demo_json_text @ [nl]) = demo_json_text"
  "strip ([nl] @ no_choices_json_text @ [nl]) = no_choices_json_text"
  by (simp_all add: demo_json_text_def no_choices_json_text_def demo_json_with_def strip_def
        py_isspace_def nl_def dq_def)

lemma cleaned_demo:
  "cleaned_json_string (fenced demo_json_text) = demo_json_text"
  "cleaned_json_string (fenced no_choices_json_text) = no_choices_json_text"
  "cleaned_json_string (bare_fenced demo_json_text) = demo_json_text"
  by (simp_all add: cleaned_json_string_def fenced_def bare_fenced_def demo_json_text_def
        no_choices_json_text_def demo_json_with_def strip_def py_isspace_def bt_def nl_def dq_def)

lemma cleaned_garbled:
  "cleaned_json_string ''Sorry, no story today.'' = ''Sorry, no story today.''"
  by (simp add: cleaned_json_string_def strip_def py_isspace_def bt_def)

lemma generate_story_chapter_reply:
  assumes "generate_content e (chapter_prompt ctx (format_optional wb) (py_format e c))
             Temperature_0_9 = Inr response"
    and "response_text response = Inr t"
  shows "generate_story_chapter e ctx wb c =
     (case json_loads e (cleaned_json_string t) of
        Inl x \<Rightarrow>
          ([Call_gemini (chapter_prompt ctx (format_optional wb) (py_format e c)) Temperature_0_9,
            St_error (AI_response_error x), St_code t], Inr JNull)
      | Inr d \<Rightarrow>
          ([Call_gemini (chapter_prompt ctx (format_optional wb) (py_format e c)) Temperature_0_9],
           Inr d))"
  using assms by (simp add: generate_story_chapter_def Let_def)

lemma generate_story_chapter_calls:
  "\<exists>out. fst (generate_story_chapter e ctx wb c) =
     Call_gemini (chapter_prompt ctx (format_optional wb) (py_format e c)) Temperature_0_9 # out
     \<and> (\<forall>p g. Call_gemini p g \<notin> set out)"
  by (auto simp: generate_story_chapter_def Let_def split: sum.splits)

lemma demo_chapter:
  "generate_story_chapter demo_env ctx wb c =
     ([Call_gemini (chapter_prompt ctx (format_optional wb) (py_format demo_env c)) Temperature_0_9],
      Inr (demo_data demo_choices))"
  by (simp add: generate_story_chapter_def Let_def demo_env_def demo_env_with_def cleaned_demo
        demo_loads_demo)


lemma garbled_chapter:
  "generate_story_chapter garbled_env ctx wb c =
     ([Call_gemini (chapter_prompt ctx (format_optional wb) (py_format garbled_env c))
         Temperature_0_9,
       St_error (AI_response_error JSONDecodeError), St_code ''Sorry, no story today.''],
      Inr JNull)"
  by (simp add: generate_story_chapter_def Let_def garbled_env_def demo_env_with_def
        cleaned_garbled demo_loads_garbled)

lemma offline_chapter:
  "generate_story_chapter offline_env ctx wb c =
     ([Call_gemini (chapter_prompt ctx (format_optional wb) (py_format offline_env c))
         Temperature_0_9,
       St_error (AI_response_error ApiError)],
      Inl UnboundLocalError)"
  by (simp add: generate_story_chapter_def Let_def offline_env_def demo_env_with_def)

text \<open>
  Claim C4. When the backend call of \<open>generate_story_chapter\<close> raises, no response
  was assigned, and the handler's read of \<open>response.text\<close> raises
  \<open>UnboundLocalError\<close>, which leaves the function. The handler gets as far as
  showing the raw text and returning \<open>None\<close> only when a response was received, its
  text was read, and decoding the cleaned text raised.
\<close>

theorem generate_story_chapter_unbound_response:
  "(generate_content e (chapter_prompt ctx (format_optional wb) (py_format e c)) Temperature_0_9
      = Inl x
    \<longrightarrow> generate_story_chapter e ctx wb c =
          ([Call_gemini (chapter_prompt ctx (format_optional wb) (py_format e c)) Temperature_0_9,
            St_error (AI_response_error x)], Inl UnboundLocalError))
   \<and> (St_code t \<in> set (fst (generate_story_chapter e ctx wb c))
    \<longrightarrow> (\<exists>response.
          generate_content e (chapter_prompt ctx (format_optional wb) (py_format e c))
            Temperature_0_9 = Inr response
        \<and> response_text response = Inr t
        \<and> (\<exists>y. json_loads e (cleaned_json_string t) = Inl y)
        \<and> snd (generate_story_chapter e ctx wb c) = Inr JNull))"
  by (auto simp: generate_story_chapter_def Let_def split: sum.splits)

theorem generate_story_chapter_unbound_response_witness:
  "generate_content offline_env
     (chapter_prompt [] (format_optional None) (py_format offline_env (JStr opening_line)))
     Temperature_0_9 = Inl ApiError
   \<and> snd (generate_story_chapter offline_env [] None (JStr opening_line)) = Inl UnboundLocalError
   \<and> St_code ''Sorry, no story today.''
        \<in> set (fst (generate_story_chapter garbled_env [] None (JStr opening_line)))
   \<and> json_loads garbled_env (cleaned_json_string ''Sorry, no story today.'')
        = Inl JSONDecodeError
   \<and> snd (generate_story_chapter garbled_env [] None (JStr opening_line)) = Inr JNull"
proof -
  have a: "generate_content offline_env
     (chapter_prompt [] (format_optional None) (py_format offline_env (JStr opening_line)))
     Temperature_0_9 = Inl ApiError"
    by (simp add: offline_env_def demo_env_with_def)
  have b: "St_code ''Sorry, no story today.''
        \<in> set (fst (generate_story_chapter garbled_env [] None (JStr opening_line)))"
    by (simp add: garbled_chapter)
  have c: "json_loads garbled_env (cleaned_json_string ''Sorry, no story today.'')
        = Inl JSONDecodeError"
    by (simp add: garbled_env_def demo_env_with_def cleaned_garbled demo_loads_garbled)
  show ?thesis
    using a b c
      generate_story_chapter_unbound_response
        [of offline_env "[]" None "JStr opening_line" ApiError "[]"]
      generate_story_chapter_unbound_response
        [of garbled_env "[]" None "JStr opening_line" ApiError "''Sorry, no story today.''"]
    by auto
qed

text \<open>
  Claim C6. The reply is cleaned before it is decoded: the decoder is given the
  cleaned text, and what it decodes to is what the function returns. The cleaned text
  never holds a code-fence marker. For a reply between a \<open>```json\<close> marker or a bare
  \<open>```\<close> marker and a closing \<open>```\<close> marker, with whitespace around, the cleaned text
  is the text between the markers, stripped; for a reply without a backtick it is the
  reply, stripped. When decoding the cleaned text raises, the function shows the error
  and the reply as it was received, unaltered, and returns \<open>None\<close>.
\<close>

theorem generate_story_chapter_defensive_parse:
  assumes "generate_content e (chapter_prompt ctx (format_optional wb) (py_format e c))
             Temperature_0_9 = Inr response"
    and "response_text response = Inr t"
  shows "snd (generate_story_chapter e ctx wb c)
           = (case json_loads e (cleaned_json_string t) of Inl x \<Rightarrow> Inr JNull | Inr d \<Rightarrow> Inr d)
       \<and> \<not> sublist [bt, bt, bt] (cleaned_json_string t)
       \<and> (\<forall>pre inner post.
            (\<forall>x \<in> set pre. py_isspace x) \<and> (\<forall>x \<in> set post. py_isspace x) \<and> bt \<notin> set inner
            \<longrightarrow> (t = pre @ [bt, bt, bt] @ ''json'' @ inner @ [bt, bt, bt] @ post
                  \<longrightarrow> cleaned_json_string t = strip inner)
              \<and> (t = pre @ [bt, bt, bt] @ inner @ [bt, bt, bt] @ post \<and> \<not> prefix ''json'' inner
                  \<longrightarrow> cleaned_json_string t = strip inner))
       \<and> (bt \<notin> set t \<longrightarrow> cleaned_json_string t = strip t)
       \<and> (\<forall>x. json_loads e (cleaned_json_string t) = Inl x
            \<longrightarrow> snd (generate_story_chapter e ctx wb c) = Inr JNull
              \<and> St_error (AI_response_error x) \<in> set (fst (generate_story_chapter e ctx wb c))
              \<and> St_code t \<in> set (fst (generate_story_chapter e ctx wb c)))"
proof (intro conjI allI impI)
  show "snd (generate_story_chapter e ctx wb c)
           = (case json_loads e (cleaned_json_string t) of Inl x \<Rightarrow> Inr JNull | Inr d \<Rightarrow> Inr d)"
    by (simp add: generate_story_chapter_reply [OF assms] split: sum.splits)
next
  show "\<not> sublist [bt, bt, bt] (cleaned_json_string t)" by (rule cleaned_fence_free)
next
  fix pre inner post
  assume h: "(\<forall>x \<in> set pre. py_isspace x) \<and> (\<forall>x \<in> set post. py_isspace x) \<and> bt \<notin> set inner"
    and "t = pre @ [bt, bt, bt] @ ''json'' @ inner @ [bt, bt, bt] @ post"
  then show "cleaned_json_string t = strip inner"
    using cleaned_fenced [of inner pre post] by simp
next
  fix pre inner post
  assume h: "(\<forall>x \<in> set pre. py_isspace x) \<and> (\<forall>x \<in> set post. py_isspace x) \<and> bt \<notin> set inner"
    and "t = pre @ [bt, bt, bt] @ inner @ [bt, bt, bt] @ post \<and> \<not> prefix ''json'' inner"
  then show "cleaned_json_string t = strip inner"
    using cleaned_bare_fence [of inner pre post] by simp
next
  assume "bt \<notin> set t"
  then show "cleaned_json_string t = strip t" by (rule cleaned_plain)
next
  fix x
  assume "json_loads e (cleaned_json_string t) = Inl x"
  then show "snd (generate_story_chapter e ctx wb c) = Inr JNull"
    "St_error (AI_response_error x) \<in> set (fst (generate_story_chapter e ctx wb c))"
    "St_code t \<in> set (fst (generate_story_chapter e ctx wb c))"
    by (simp_all add: generate_story_chapter_reply [OF assms])
qed

theorem generate_story_chapter_defensive_parse_witness:
  "generate_content demo_env
     (chapter_prompt [] (format_optional None) (py_format demo_env (JStr opening_line)))
     Temperature_0_9 = Inr (GenerateContentResponse (Inr (fenced demo_json_text)))
   \<and> fenced demo_json_text
       = [] @ [bt, bt, bt] @ ''json'' @ ([nl] @ demo_json_text @ [nl]) @ [bt, bt, bt] @ [nl]
   \<and> py_isspace nl \<and> bt \<notin> set ([nl] @ demo_json_text @ [nl])
   \<and> cleaned_json_string (fenced demo_json_text) = strip ([nl] @ demo_json_text @ [nl])
   \<and> snd (generate_story_chapter demo_env [] None (JStr opening_line))
       = Inr (demo_data demo_choices)
   \<and> generate_content bare_fence_env
     (chapter_prompt [] (format_optional None) (py_format bare_fence_env (JStr opening_line)))
     Temperature_0_9 = Inr (GenerateContentResponse (Inr (bare_fenced demo_json_text)))
   \<and> bare_fenced demo_json_text
       = [] @ [bt, bt, bt] @ ([nl] @ demo_json_text @ [nl]) @ [bt, bt, bt] @ []
   \<and> \<not> prefix ''json'' ([nl] @ demo_json_text @ [nl])
   \<and> cleaned_json_string (bare_fenced demo_json_text) = strip ([nl] @ demo_json_text @ [nl])
   \<and> snd (generate_story_chapter bare_fence_env [] None (JStr opening_line))
       = Inr (demo_data demo_choices)
   \<and> generate_content garbled_env
     (chapter_prompt [] (format_optional None) (py_format garbled_env (JStr opening_line)))
     Temperature_0_9 = Inr (GenerateContentResponse (Inr ''Sorry, no story today.''))
   \<and> bt \<notin> set ''Sorry, no story today.''
   \<and> cleaned_json_string ''Sorry, no story today.'' = strip ''Sorry, no story today.''
   \<and> json_loads garbled_env (cleaned_json_string ''Sorry, no story today.'')
       = Inl JSONDecodeError
   \<and> snd (generate_story_chapter garbled_env [] None (JStr opening_line)) = Inr JNull
   \<and> St_code ''Sorry, no story today.''
       \<in> set (fst (generate_story_chapter garbled_env [] None (JStr opening_line)))"
proof -
  let ?inner = "[nl] @ demo_json_text @ [nl]"
  have a: "generate_content demo_env
     (chapter_prompt [] (format_optional None) (py_format demo_env (JStr opening_line)))
     Temperature_0_9 = Inr (GenerateContentResponse (Inr (fenced demo_json_text)))"
    by (simp add: demo_env_def demo_env_with_def)
  have a': "generate_content bare_fence_env
     (chapter_prompt [] (format_optional None) (py_format bare_fence_env (JStr opening_line)))
     Temperature_0_9 = Inr (GenerateContentResponse (Inr (bare_fenced demo_json_text)))"
    by (simp add: bare_fence_env_def demo_env_with_def)
  have g: "generate_content garbled_env
     (chapter_prompt [] (format_optional None) (py_format garbled_env (JStr opening_line)))
     Temperature_0_9 = Inr (GenerateContentResponse (Inr ''Sorry, no story today.''))"
    by (simp add: garbled_env_def demo_env_with_def)
  have b: "fenced demo_json_text = [] @ [bt, bt, bt] @ ''json'' @ ?inner @ [bt, bt, bt] @ [nl]"
    "bare_fenced demo_json_text = [] @ [bt, bt, bt] @ ?inner @ [bt, bt, bt] @ []"
    by (simp_all add: fenced_def bare_fenced_def)
  have sp: "py_isspace nl" by (simp add: py_isspace_def nl_def)
  then have sps: "\<forall>x \<in> set []. py_isspace x" "\<forall>x \<in> set [nl]. py_isspace x" by simp_all
  have c: "bt \<notin> set ?inner" using demo_json_no_backtick by (simp add: bt_def nl_def)
  have nj: "\<not> prefix ''json'' ?inner" by (simp add: nl_def)
  have nb: "bt \<notin> set ''Sorry, no story today.''" by (simp add: bt_def)
  have l: "json_loads demo_env (cleaned_json_string (fenced demo_json_text))
            = Inr (demo_data demo_choices)"
    "json_loads bare_fence_env (cleaned_json_string (bare_fenced demo_json_text))
            = Inr (demo_data demo_choices)"
    "json_loads garbled_env (cleaned_json_string ''Sorry, no story today.'')
            = Inl JSONDecodeError"
    by (simp_all add: demo_env_def bare_fence_env_def garbled_env_def demo_env_with_def
          cleaned_demo cleaned_garbled demo_loads_demo demo_loads_garbled)
  note t1 = generate_story_chapter_defensive_parse [OF a, of "fenced demo_json_text"]
  note t2 = generate_story_chapter_defensive_parse [OF a', of "bare_fenced demo_json_text"]
  note t3 = generate_story_chapter_defensive_parse [OF g, of "''Sorry, no story today.''"]
  have 1: "cleaned_json_string (fenced demo_json_text) = strip ?inner"
    using t1 b(1) c sps by (metis gemini_response.sel)
  have 2: "snd (generate_story_chapter demo_env [] None (JStr opening_line))
       = Inr (demo_data demo_choices)"
    using t1 l(1) by simp
  have 3: "cleaned_json_string (bare_fenced demo_json_text) = strip ?inner"
    using t2 b(2) c nj sps by (metis gemini_response.sel)
  have 4: "snd (generate_story_chapter bare_fence_env [] None (JStr opening_line))
       = Inr (demo_data demo_choices)"
    using t2 l(2) by simp
  have 5: "cleaned_json_string ''Sorry, no story today.'' = strip ''Sorry, no story today.''"
    using t3 nb by simp
  have 6: "snd (generate_story_chapter garbled_env [] None (JStr opening_line)) = Inr JNull
    \<and> St_code ''Sorry, no story today.''
       \<in> set (fst (generate_story_chapter garbled_env [] None (JStr opening_line)))"
    using t3 l(3) by simp
  show ?thesis using a a' g b sp c nj nb l(3) 1 2 3 4 5 6 by blast
qed


section \<open>The session invariant\<close>

lemma session_invariant_initial: "session_invariant initial_state"
  by (simp add: session_invariant_def initial_state_def)

lemma world_forge_submit_invariant:
  "s = initial_state \<Longrightarrow> session_invariant (fst (snd (world_forge_submit e th ar co s)))"
  by (auto simp: world_forge_submit_def session_invariant_def initial_state_def
           split: prod.splits sum.splits)

lemma story_start_submit_invariant:
  "app_stage s = StoryStart \<Longrightarrow> latest_choices s = JArr [] \<Longrightarrow>
   session_invariant (fst (snd (story_start_submit e p s)))"
  by (auto simp: story_start_submit_def session_invariant_def append_chapter_def
                 set_first_image_def Let_def
           split: prod.splits sum.splits list.splits)

lemma story_cycle_submit_invariant:
  "app_stage s = StoryCycle \<Longrightarrow> story_chapters s \<noteq> [] \<Longrightarrow>
   session_invariant (fst (snd (story_cycle_submit e c s)))"
  by (auto simp: story_cycle_submit_def session_invariant_def append_chapter_def Let_def
           split: prod.splits sum.splits)

lemma choice_form_invariant:
  "app_stage s = StoryCycle \<Longrightarrow> story_chapters s \<noteq> [] \<Longrightarrow>
   session_invariant (fst (snd (choice_form e c s)))"
  by (simp add: choice_form_def story_cycle_submit_invariant) (simp add: session_invariant_def)

lemma story_cycle_page_invariant:
  "app_stage s = StoryCycle \<Longrightarrow> story_chapters s \<noteq> [] \<Longrightarrow>
   session_invariant (fst (snd (story_cycle_page e ev s)))"
  by (cases ev)
     (auto simp: story_cycle_page_def choice_form_invariant split: sum.splits,
      (simp add: session_invariant_def)+)

lemma page_invariant:
  assumes "session_invariant s"
  shows "session_invariant (fst (snd (page e ev s)))"
proof (cases "app_stage s")
  case WorldForge
  with assms have "s = initial_state" by (simp add: session_invariant_def)
  with WorldForge assms show ?thesis
    by (cases ev) (simp_all add: page_def world_forge_submit_invariant)
next
  case StoryStart
  with assms have "latest_choices s = JArr []" by (simp add: session_invariant_def)
  with StoryStart assms show ?thesis
    by (cases ev) (simp_all add: page_def story_start_submit_invariant)
next
  case StoryCycle
  with assms have "story_chapters s \<noteq> []" by (simp add: session_invariant_def)
  with StoryCycle show ?thesis
    by (simp add: page_def story_cycle_page_invariant)
qed

lemma next_state_invariant:
  assumes "session_invariant s"
  shows "session_invariant (next_state e ev s)"
proof -
  obtain out s' oc where p: "page e ev s = (out, s', oc)"
    by (cases "page e ev s") auto
  with page_invariant [OF assms, of e ev] have "session_invariant s'" by simp
  then show ?thesis using p
    by (cases oc)
       (auto simp: next_state_def script_def init_session_def session_invariant_initial)
qed

lemma reachable_invariant: "reachable s \<Longrightarrow> session_invariant s"
  by (induction rule: reachable.induct)
     (simp_all add: session_invariant_initial next_state_invariant)

lemma demo_world_bible:
  "next_state demo_env (SetTheStage ''Revenge'' ''The Outcast'' ''A bored city.'') initial_state
   = start_state"
  by (simp add: next_state_def script_def page_def initial_state_def world_forge_submit_def
        generate_world_bible_def demo_env_def demo_env_with_def start_state_def Let_def
        init_session_def)

lemma reachable_start_state: "reachable start_state"
  using reachable_step [OF reachable_initial, of demo_env
      "SetTheStage ''Revenge'' ''The Outcast'' ''A bored city.''"]
  by (simp add: demo_world_bible)

lemma demo_image:
  "generate_image_stability demo_env v = ([St_warning Stability_key_missing], Inr None)"
  by (simp add: generate_image_stability_def demo_env_def demo_env_with_def)


lemma demo_start:
  "snd (story_start_submit demo_env opening_line start_state) = (cycle_state demo_choices, Rerun)"
  by (simp add: story_start_submit_def demo_chapter demo_image append_chapter_def
        set_first_image_def start_state_def cycle_state_def opening_line_def demo_data_def)


lemma script_start:
  "snd (story_start_submit e p start_state) = (s', Rerun) \<Longrightarrow>
   next_state e (StartSaga p) start_state = s'"
  by (cases "story_start_submit e p start_state")
     (simp add: next_state_def script_def page_def start_state_def init_session_def)

lemma reachable_cycle_state: "reachable (cycle_state demo_choices)"
  using reachable_step [OF reachable_start_state, of demo_env "StartSaga opening_line"]
  by (simp add: script_start [OF demo_start])


lemma demo_join:
  "py_join '' '' (map chapter_text (story_chapters (cycle_state choices)))
   = Inr (spaced [opening_line, ''The hatch opened.''])"
  using py_join_spaced [of "[opening_line, ''The hatch opened.'']"]
  by (simp add: cycle_state_def)

lemma demo_cycle:
  "snd (story_cycle_submit demo_env c (cycle_state demo_choices))
   = (append_chapter (JStr ''The hatch opened.'') None (cycle_state demo_choices), Rerun)"
  by (simp add: story_cycle_submit_def demo_join demo_chapter demo_image demo_data_def
        append_chapter_def cycle_state_def)


lemma page_weave:
  "page e (Weave c) (cycle_state demo_choices)
   = story_cycle_submit e c (cycle_state demo_choices)"
proof -
  have "app_stage (cycle_state demo_choices) = StoryCycle"
    "story_chapters (cycle_state demo_choices) \<noteq> []"
    "truthy (latest_choices (cycle_state demo_choices))"
    by (simp_all add: cycle_state_def demo_choices_def)
  then show ?thesis
    by (simp add: page_def story_cycle_page_def demo_join choice_form_def)
qed


section \<open>Restart and the pending choices\<close>

lemma page_restart:
  "page e Restart s =
     (case (if app_stage s = StoryCycle \<and> story_chapters s \<noteq> []
            then py_join '' '' (map chapter_text (story_chapters s)) else Inr []) of
        Inl x \<Rightarrow> ([], s, Raised x)
      | Inr t \<Rightarrow> ([], s, Completed))"
  by (cases "app_stage s") (auto simp: page_def story_cycle_page_def split: sum.splits)

lemma restart_button_unreached:
  assumes "app_stage s = StoryCycle" and "story_chapters s \<noteq> []"
    and "py_join '' '' (map chapter_text (story_chapters s)) = Inl x"
  shows "script e Restart s = ([], s, Raised x)"
  using assms by (simp add: script_def page_restart init_session_def)

text \<open>
  Claim C7. The restart button is drawn by a run whose page fell through. Pressed in
  such a run, from any reachable session, it leaves the initial session: the stage is
  \<open>world_forge\<close>, there is no world bible, no chapter and no pending choice. Outside
  \<open>world_forge\<close> the run deletes the four keys and reruns, and the next run writes the
  initial values; in \<open>world_forge\<close>, where the button is not drawn, a reachable session
  holds the initial values already.
\<close>

theorem restart_resets_session:
  assumes "reachable s" and "snd (snd (page e Restart s)) = Completed"
  shows "next_state e Restart s = initial_state
       \<and> app_stage (next_state e Restart s) = WorldForge
       \<and> world_bible (next_state e Restart s) = None
       \<and> story_chapters (next_state e Restart s) = []
       \<and> latest_choices (next_state e Restart s) = JArr []
       \<and> snd (snd (script e Restart s))
           = (if app_stage s = WorldForge then Completed else Rerun)"
proof -
  from assms(2) have p: "page e Restart s = ([], s, Completed)"
    by (auto simp: page_restart split: sum.splits if_splits)
  have n: "next_state e Restart s = initial_state"
  proof (cases "app_stage s = WorldForge")
    case True
    with reachable_invariant [OF assms(1)] have "s = initial_state"
      by (simp add: session_invariant_def)
    moreover from True have "next_state e Restart s = s"
      by (simp add: next_state_def script_def p init_session_def)
    ultimately show ?thesis by simp
  next
    case False
    then show ?thesis
      by (simp add: next_state_def script_def p init_session_def)
  qed
  have o: "snd (snd (script e Restart s)) = (if app_stage s = WorldForge then Completed else Rerun)"
    by (simp add: script_def p)
  from n o show ?thesis by (simp add: initial_state_def)
qed

theorem restart_resets_session_witness:
  "reachable (cycle_state demo_choices)
   \<and> snd (snd (page demo_env Restart (cycle_state demo_choices))) = Completed
   \<and> app_stage (cycle_state demo_choices) = StoryCycle
   \<and> length (story_chapters (cycle_state demo_choices)) = 2
   \<and> latest_choices (cycle_state demo_choices) = demo_choices
   \<and> next_state demo_env Restart (cycle_state demo_choices) = initial_state
   \<and> story_chapters (next_state demo_env Restart (cycle_state demo_choices)) = []
   \<and> latest_choices (next_state demo_env Restart (cycle_state demo_choices)) = JArr []
   \<and> snd (snd (script demo_env Restart (cycle_state demo_choices))) = Rerun"
proof -
  have c: "app_stage (cycle_state demo_choices) = StoryCycle"
    "length (story_chapters (cycle_state demo_choices)) = 2"
    "latest_choices (cycle_state demo_choices) = demo_choices"
    by (simp_all add: cycle_state_def)
  have p: "snd (snd (page demo_env Restart (cycle_state demo_choices))) = Completed"
    by (simp add: page_restart demo_join)
  from restart_resets_session [OF reachable_cycle_state p] c reachable_cycle_state p
  show ?thesis by (simp add: initial_state_def)
qed










section \<open>What a submission does to the chapters\<close>

lemma set_first_image_length:
  "set_first_image img s = Inr s2 \<Longrightarrow> length (story_chapters s2) = length (story_chapters s)"
  by (auto simp: set_first_image_def split: list.splits)

lemma story_start_submit_length:
  assumes "snd (snd (story_start_submit e p s)) = Rerun"
  shows "length (story_chapters (fst (snd (story_start_submit e p s))))
         = length (story_chapters s) + 2"
  using assms
  by (cases "generate_story_chapter e [] (world_bible s) (JStr p)")
     (auto simp: story_start_submit_def append_chapter_def Let_def
           split: prod.splits sum.splits if_splits dest: set_first_image_length)

lemma story_cycle_submit_length:
  assumes "snd (snd (story_cycle_submit e c s)) = Rerun"
  shows "length (story_chapters (fst (snd (story_cycle_submit e c s))))
         = length (story_chapters s) + 1"
  using assms
  by (auto simp: story_cycle_submit_def append_chapter_def Let_def
           split: prod.splits sum.splits if_splits)

lemma choice_form_length:
  assumes "snd (snd (choice_form e c s)) = Rerun"
  shows "length (story_chapters (fst (snd (choice_form e c s))))
         = length (story_chapters s) + 1"
  using assms story_cycle_submit_length [of e c s]
  by (simp add: choice_form_def split: if_splits)

lemma story_cycle_failure_unchanged:
  assumes "snd (generate_story_chapter e ctx (world_bible s) c) = Inl x
           \<or> (\<exists>r. snd (generate_story_chapter e ctx (world_bible s) c) = Inr r \<and> \<not> truthy r)"
    and "py_join '' '' (map chapter_text (story_chapters s)) = Inr ctx"
  shows "fst (snd (story_cycle_submit e c s)) = s"
  using assms
  by (cases "generate_story_chapter e ctx (world_bible s) c")
     (auto simp: story_cycle_submit_def Let_def)

text \<open>
  Claim C2. A submission that runs to its rerun adds exactly one chapter in the story
  cycle and exactly two in the story start (the opening sentence and the generated
  continuation); the first story start therefore leaves two chapters.
\<close>

theorem successful_submission_adds_chapters:
  assumes "snd (snd (page e ev s)) = Rerun"
  shows "(app_stage s = StoryCycle
          \<longrightarrow> length (story_chapters (fst (snd (page e ev s)))) = length (story_chapters s) + 1)
       \<and> (app_stage s = StoryStart
          \<longrightarrow> length (story_chapters (fst (snd (page e ev s)))) = length (story_chapters s) + 2)
       \<and> (app_stage s = StoryStart \<and> story_chapters s = []
          \<longrightarrow> length (story_chapters (fst (snd (page e ev s)))) = 2)"
proof -
  have cycle: "length (story_chapters (fst (snd (page e ev s)))) = length (story_chapters s) + 1"
    if st: "app_stage s = StoryCycle"
  proof -
    from st assms obtain i where "ev = Weave i"
      by (cases ev) (auto simp: page_def story_cycle_page_def split: sum.splits if_splits)
    with st assms have "page e ev s = choice_form e i s"
      by (auto simp: page_def story_cycle_page_def split: sum.splits if_splits)
    with assms choice_form_length [of e i s] show ?thesis by simp
  qed
  have start: "length (story_chapters (fst (snd (page e ev s)))) = length (story_chapters s) + 2"
    if st: "app_stage s = StoryStart"
  proof -
    from st assms obtain p where "ev = StartSaga p"
      by (cases ev) (simp_all add: page_def)
    with st assms story_start_submit_length [of e p s] show ?thesis
      by (simp add: page_def)
  qed
  from cycle start show ?thesis by simp
qed

theorem successful_submission_adds_chapters_witness:
  "snd (snd (page demo_env (Weave (JStr ''Stop the clock'')) (cycle_state demo_choices)))
     = Rerun
   \<and> app_stage (cycle_state demo_choices) = StoryCycle
   \<and> length (story_chapters (cycle_state demo_choices)) = 2
   \<and> length (story_chapters (fst (snd (page demo_env (Weave (JStr ''Stop the clock''))
         (cycle_state demo_choices))))) = 3
   \<and> snd (snd (page demo_env (StartSaga opening_line) start_state)) = Rerun
   \<and> app_stage start_state = StoryStart \<and> story_chapters start_state = []
   \<and> length (story_chapters (fst (snd (page demo_env (StartSaga opening_line) start_state))))
       = 2"
proof -
  have a: "snd (snd (page demo_env (Weave (JStr ''Stop the clock''))
             (cycle_state demo_choices))) = Rerun"
    by (simp add: page_weave demo_cycle)
  have b: "app_stage (cycle_state demo_choices) = StoryCycle"
    "length (story_chapters (cycle_state demo_choices)) = 2"
    by (simp_all add: cycle_state_def)
  have c: "snd (snd (page demo_env (StartSaga opening_line) start_state)) = Rerun"
    using demo_start by (simp add: page_def start_state_def)
  have d: "app_stage start_state = StoryStart" "story_chapters start_state = []"
    by (simp_all add: start_state_def)
  from successful_submission_adds_chapters [OF a] b
  have 1: "length (story_chapters (fst (snd (page demo_env (Weave (JStr ''Stop the clock''))
         (cycle_state demo_choices))))) = 3" by simp
  from successful_submission_adds_chapters [OF c] d
  have 2: "length (story_chapters (fst (snd (page demo_env (StartSaga opening_line) start_state))))
           = 2" by simp
  from a b c d 1 2 show ?thesis by simp
qed

lemma story_start_retry_duplicates_opening:
  "story_chapters (fst (snd (story_start_submit demo_env opening_line
      (fst (snd (story_start_submit garbled_env opening_line start_state))))))
   = [\<lparr>chapter_text = JStr opening_line, chapter_image = None\<rparr>,
      \<lparr>chapter_text = JStr opening_line, chapter_image = None\<rparr>,
      \<lparr>chapter_text = JStr ''The hatch opened.'', chapter_image = None\<rparr>]"
proof -
  have 1: "fst (snd (story_start_submit garbled_env opening_line start_state))
     = start_state\<lparr>story_chapters :=
          [\<lparr>chapter_text = JStr opening_line, chapter_image = None\<rparr>]\<rparr>"
    by (simp add: story_start_submit_def garbled_chapter append_chapter_def start_state_def
          opening_line_def)
  show ?thesis
    unfolding 1
    by (simp add: story_start_submit_def demo_chapter demo_image append_chapter_def
          set_first_image_def start_state_def opening_line_def demo_data_def)
qed

text \<open>
  Claim C1. The claim asks that a submission whose narrative generation fails appends
  no chapter. The story cycle handler does so (\<open>story_cycle_failure_unchanged\<close>): it
  writes to the session only after the reply was found truthy. The story start handler
  appends the opening sentence before it calls the generator, so with a reply that does
  not decode the session keeps that chapter, in the stage \<open>story_start\<close>; the same
  garbled reply leaves the session of the story cycle as it was. A second try then
  appends the opening sentence once more (\<open>story_start_retry_duplicates_opening\<close>).
\<close>

theorem story_start_failure_keeps_opening:
  "snd (story_start_submit garbled_env opening_line start_state)
     = (start_state\<lparr>story_chapters :=
          [\<lparr>chapter_text = JStr opening_line, chapter_image = None\<rparr>]\<rparr>, Completed)
   \<and> snd (generate_story_chapter garbled_env [] (world_bible start_state) (JStr opening_line))
     = Inr JNull
   \<and> story_chapters start_state = []
   \<and> snd (story_cycle_submit garbled_env (JStr ''Stop the clock'') (cycle_state demo_choices))
     = (cycle_state demo_choices, Completed)"
proof -
  have 1: "snd (story_start_submit garbled_env opening_line start_state)
     = (start_state\<lparr>story_chapters :=
          [\<lparr>chapter_text = JStr opening_line, chapter_image = None\<rparr>]\<rparr>, Completed)"
    by (simp add: story_start_submit_def garbled_chapter append_chapter_def start_state_def
          opening_line_def)
  have 2: "snd (story_cycle_submit garbled_env (JStr ''Stop the clock'') (cycle_state demo_choices))
     = (cycle_state demo_choices, Completed)"
    by (simp add: story_cycle_submit_def demo_join garbled_chapter)
  show ?thesis using 1 2 by (simp add: garbled_chapter start_state_def)
qed



section \<open>Illustration failures\<close>

lemma http_error_clause_no_gemini:
  "Call_gemini p g \<notin> set (fst (http_error_clause e r))"
  by (auto simp: http_error_clause_def split: sum.splits)

lemma other_clauses_no_gemini:
  "Call_gemini p g \<notin> set (fst (other_clauses e x r))"
  by (auto simp: other_clauses_def split: sum.splits option.splits)

lemma generate_image_stability_no_gemini:
  "Call_gemini p g \<notin> set (fst (generate_image_stability e ip))"
  using http_error_clause_no_gemini [of p g e] other_clauses_no_gemini [of p g e]
  by (auto simp: generate_image_stability_def Let_def split: sum.splits prod.splits)
     (metis fst_conv)+

lemma set_first_image_append:
  "set_first_image img (append_chapter t i s) =
     Inr (s\<lparr>story_chapters :=
              (case story_chapters s @ [\<lparr>chapter_text = t, chapter_image = i\<rparr>] of
                 c0 # cs \<Rightarrow> c0\<lparr>chapter_image := img\<rparr> # cs)\<rparr>)"
  by (cases "story_chapters s") (simp_all add: set_first_image_def append_chapter_def)

text \<open>What the clauses catch: the clause for \<open>HTTPError\<close> returns \<open>None\<close> when the
  body decodes or the decoder raises \<open>JSONDecodeError\<close>, and lets every other
  exception of the decoder leave; the last clause returns \<open>None\<close> for whatever it is
  given.\<close>

lemma http_error_clause_result:
  "snd (http_error_clause e r) =
     (case json_loads e (http_body r) of
        Inr d \<Rightarrow> Inr None
      | Inl x \<Rightarrow> if x = JSONDecodeError then Inr None else Inl x)"
  by (simp add: http_error_clause_def split: sum.splits)

lemma other_clauses_generic:
  "x \<noteq> KeyError \<Longrightarrow> x \<noteq> IndexError \<Longrightarrow> snd (other_clauses e x r) = Inr None"
  by (simp add: other_clauses_def)

lemma generate_image_stability_no_key:
  "STABILITY_API_KEY e = None \<or> STABILITY_API_KEY e = Some [] \<Longrightarrow>
   generate_image_stability e ip = ([St_warning Stability_key_missing], Inr None)"
  by (simp add: generate_image_stability_def)

lemma generate_image_stability_http_error:
  assumes "STABILITY_API_KEY e = Some k" and "k \<noteq> []"
    and "requests_post e (''cinematic, epic, high detail, masterpiece, '' @ py_format e ip)
         = Inr r"
    and "400 \<le> status_code r" and "status_code r < 600"
  shows "snd (generate_image_stability e ip) = snd (http_error_clause e r)"
  using assms by (simp add: generate_image_stability_def Let_def split: prod.splits)

text \<open>When the illustration call returns \<open>None\<close> the handlers go on: in the story
  cycle the generated chapter is appended with no image, in the story start the
  opening chapter keeps no image and the generated chapter is appended after it.
  When it raises, the story cycle handler ends there and the session is as it was.\<close>

lemma illustration_none_keeps_chapter:
  assumes "snd (generate_image_stability e ip) = Inr None"
  shows "py_join '' '' (map chapter_text (story_chapters s)) = Inr ctx
          \<and> generate_story_chapter e ctx (world_bible s) c = (out, Inr r) \<and> truthy r
          \<and> getitem r ''image_prompt'' = Inr ip \<and> getitem r ''narrative_chapter'' = Inr nc
          \<longrightarrow> story_chapters (fst (snd (story_cycle_submit e c s)))
              = story_chapters s @ [\<lparr>chapter_text = nc, chapter_image = None\<rparr>]"
    and "p \<noteq> [] \<and> story_chapters s = []
          \<and> generate_story_chapter e [] (world_bible s) (JStr p) = (out, Inr r) \<and> truthy r
          \<and> getitem r ''image_prompt'' = Inr ip \<and> getitem r ''narrative_chapter'' = Inr nc
          \<longrightarrow> story_chapters (fst (snd (story_start_submit e p s)))
              = [\<lparr>chapter_text = JStr p, chapter_image = None\<rparr>,
                 \<lparr>chapter_text = nc, chapter_image = None\<rparr>]"
proof -
  from assms obtain out2 where g: "generate_image_stability e ip = (out2, Inr None)"
    by (cases "generate_image_stability e ip") simp
  show "py_join '' '' (map chapter_text (story_chapters s)) = Inr ctx
          \<and> generate_story_chapter e ctx (world_bible s) c = (out, Inr r) \<and> truthy r
          \<and> getitem r ''image_prompt'' = Inr ip \<and> getitem r ''narrative_chapter'' = Inr nc
          \<longrightarrow> story_chapters (fst (snd (story_cycle_submit e c s)))
              = story_chapters s @ [\<lparr>chapter_text = nc, chapter_image = None\<rparr>]"
    by (cases "getitem r ''next_choices''")
       (simp_all add: story_cycle_submit_def g append_chapter_def)
  have w: "world_bible (append_chapter (JStr p) None s) = world_bible s"
    by (simp add: append_chapter_def)
  show "p \<noteq> [] \<and> story_chapters s = []
          \<and> generate_story_chapter e [] (world_bible s) (JStr p) = (out, Inr r) \<and> truthy r
          \<and> getitem r ''image_prompt'' = Inr ip \<and> getitem r ''narrative_chapter'' = Inr nc
          \<longrightarrow> story_chapters (fst (snd (story_start_submit e p s)))
              = [\<lparr>chapter_text = JStr p, chapter_image = None\<rparr>,
                 \<lparr>chapter_text = nc, chapter_image = None\<rparr>]"
    by (cases "getitem r ''next_choices''")
       (simp_all add: story_start_submit_def w g set_first_image_append,
        simp_all add: append_chapter_def)
qed

lemma illustration_raise_aborts_chapter:
  assumes "snd (generate_image_stability e ip) = Inl x"
    and "py_join '' '' (map chapter_text (story_chapters s)) = Inr ctx"
    and "generate_story_chapter e ctx (world_bible s) c = (out, Inr r)" and "truthy r"
    and "getitem r ''image_prompt'' = Inr ip"
  shows "snd (story_cycle_submit e c s) = (s, Raised x)"
proof -
  from assms(1) obtain out2 where g: "generate_image_stability e ip = (out2, Inl x)"
    by (cases "generate_image_stability e ip") simp
  with assms(2-) show ?thesis by (simp add: story_cycle_submit_def)
qed

lemma nested_chapter:
  "generate_story_chapter nested_env ctx wb c =
     ([Call_gemini (chapter_prompt ctx (format_optional wb) (py_format nested_env c))
         Temperature_0_9],
      Inr (demo_data demo_choices))"
  by (simp add: generate_story_chapter_def Let_def nested_env_def demo_env_def
        demo_env_with_def cleaned_demo demo_loads_demo)

lemma rejecting_chapter:
  "generate_story_chapter rejecting_env ctx wb c =
     ([Call_gemini (chapter_prompt ctx (format_optional wb) (py_format rejecting_env c))
         Temperature_0_9],
      Inr (demo_data demo_choices))"
  by (simp add: generate_story_chapter_def Let_def rejecting_env_def demo_env_def
        demo_env_with_def cleaned_demo demo_loads_demo)

lemma nested_image:
  "generate_image_stability nested_env ip =
     ([Call_stability (''cinematic, epic, high detail, masterpiece, '' @ py_format nested_env ip),
       St_error (Stability_http_error 500)], Inl RecursionError)"
  by (simp add: generate_image_stability_def http_error_clause_def nested_env_def
        demo_env_def demo_env_with_def demo_loads_nested Let_def)

lemma rejecting_image:
  "generate_image_stability rejecting_env ip =
     ([Call_stability (''cinematic, epic, high detail, masterpiece, ''
         @ py_format rejecting_env ip),
       St_error (Stability_http_error 401), St_error Raw_api_response_text,
       St_text ''Unauthorized''], Inr None)"
  by (simp add: generate_image_stability_def http_error_clause_def rejecting_env_def
        demo_env_def demo_env_with_def demo_loads_unauthorized Let_def)

text \<open>
  Claim C5. The claim asks that an illustration call that fails for any reason leaves
  the chapter appended with no image. It holds whenever \<open>generate_image_stability\<close>
  returns \<open>None\<close> (\<open>illustration_none_keeps_chapter\<close>), as it does for an image backend
  that answers 401 with a body that is not JSON. It does not hold for an upstream
  rejection whose body makes the decoder raise something other than
  \<open>JSONDecodeError\<close>: the clause for \<open>HTTPError\<close> catches that one exception only.
  With a Stability key and an image backend that answers 500 with a body of a hundred
  thousand opening brackets, the decoder raises \<open>RecursionError\<close>, it leaves
  \<open>generate_image_stability\<close>, and the story cycle handler ends before it appends the
  chapter: the session is as it was, and the generated chapter is lost. In the story
  start the opening chapter stays and the generated one is not appended.
\<close>

theorem illustration_failure_loses_chapter:
  "snd (generate_image_stability nested_env (JStr ''starship, cryo pod, dawn''))
     = Inl RecursionError
   \<and> snd (generate_story_chapter nested_env (spaced [opening_line, ''The hatch opened.''])
            (world_bible (cycle_state demo_choices)) (JStr ''Stop the clock''))
     = Inr (demo_data demo_choices)
   \<and> snd (story_cycle_submit nested_env (JStr ''Stop the clock'') (cycle_state demo_choices))
     = (cycle_state demo_choices, Raised RecursionError)
   \<and> snd (story_start_submit nested_env opening_line start_state)
     = (start_state\<lparr>story_chapters :=
          [\<lparr>chapter_text = JStr opening_line, chapter_image = None\<rparr>]\<rparr>,
        Raised RecursionError)
   \<and> snd (generate_image_stability rejecting_env (JStr ''starship, cryo pod, dawn''))
     = Inr None
   \<and> snd (story_cycle_submit rejecting_env (JStr ''Stop the clock'') (cycle_state demo_choices))
     = (append_chapter (JStr ''The hatch opened.'') None (cycle_state demo_choices), Rerun)"
proof -
  have 1: "snd (story_cycle_submit nested_env (JStr ''Stop the clock'')
             (cycle_state demo_choices))
     = (cycle_state demo_choices, Raised RecursionError)"
    by (simp add: story_cycle_submit_def demo_join nested_chapter nested_image demo_data_def)
  have 2: "snd (story_start_submit nested_env opening_line start_state)
     = (start_state\<lparr>story_chapters :=
          [\<lparr>chapter_text = JStr opening_line, chapter_image = None\<rparr>]\<rparr>,
        Raised RecursionError)"
    by (simp add: story_start_submit_def nested_chapter nested_image demo_data_def
          append_chapter_def start_state_def opening_line_def)
  have 3: "snd (story_cycle_submit rejecting_env (JStr ''Stop the clock'')
             (cycle_state demo_choices))
     = (append_chapter (JStr ''The hatch opened.'') None (cycle_state demo_choices), Rerun)"
    by (simp add: story_cycle_submit_def demo_join rejecting_chapter rejecting_image
          demo_data_def append_chapter_def cycle_state_def)
  show ?thesis
    using 1 2 3 by (simp add: nested_image rejecting_image nested_chapter)
qed


section \<open>The prompt of a story cycle and the submitted choice\<close>

lemma story_cycle_submit_trace:
  assumes "py_join '' '' (map chapter_text (story_chapters s)) = Inr ctx"
  shows "\<exists>out. fst (story_cycle_submit e c s) =
           Call_gemini (chapter_prompt ctx (format_optional (world_bible s)) (py_format e c))
             Temperature_0_9 # out
         \<and> (\<forall>p g. Call_gemini p g \<notin> set out)"
proof -
  obtain out1 where o: "fst (generate_story_chapter e ctx (world_bible s) c) =
      Call_gemini (chapter_prompt ctx (format_optional (world_bible s)) (py_format e c))
        Temperature_0_9 # out1" "\<forall>p g. Call_gemini p g \<notin> set out1"
    using generate_story_chapter_calls [of e ctx "world_bible s" c] by blast
  obtain tr r where g: "generate_story_chapter e ctx (world_bible s) c = (tr, r)"
    by (cases "generate_story_chapter e ctx (world_bible s) c") auto
  with o have tr: "tr = Call_gemini (chapter_prompt ctx (format_optional (world_bible s))
      (py_format e c)) Temperature_0_9 # out1" by simp
  show ?thesis
    using assms g o(2) generate_image_stability_no_gemini [of _ _ e]
    by (auto simp: story_cycle_submit_def tr Let_def split: sum.splits prod.splits)
       (metis fst_conv)+
qed

lemma story_cycle_submit_no_context:
  assumes "py_join '' '' (map chapter_text (story_chapters s)) = Inl x"
  shows "story_cycle_submit e c s = ([], s, Raised x)"
  using assms by (simp add: story_cycle_submit_def)

text \<open>
  Claim C8. In a story cycle submission the generator is called with the texts of all
  chapters of the session, in their order and with one space between neighbours, as
  story context: whenever the chapter texts are strings the first thing the handler
  does is that call, and whenever the handler calls the generator the prompt is the
  one built from that context, the session's world bible and the submitted choice.
  The context holds every chapter text in order, and the prompt holds the choice, the
  context and the world bible, in this order.
\<close>

theorem story_cycle_context_is_all_chapters:
  "(map chapter_text (story_chapters s) = map JStr ts
      \<longrightarrow> (\<exists>out. fst (story_cycle_submit e c s) =
             Call_gemini (chapter_prompt (spaced ts) (format_optional (world_bible s))
               (py_format e c)) Temperature_0_9 # out))
   \<and> (Call_gemini p g \<in> set (fst (story_cycle_submit e c s))
      \<longrightarrow> (\<exists>us. map chapter_text (story_chapters s) = map JStr us
             \<and> p = chapter_prompt (spaced us) (format_optional (world_bible s)) (py_format e c)
             \<and> g = Temperature_0_9))
   \<and> subseq (concat ts) (spaced ts)
   \<and> (\<exists>a b d f. chapter_prompt ctx wb ch = a @ ch @ b @ ctx @ d @ wb @ f)"
proof (intro conjI impI)
  assume "map chapter_text (story_chapters s) = map JStr ts"
  then have "py_join '' '' (map chapter_text (story_chapters s)) = Inr (spaced ts)"
    by (simp add: py_join_spaced)
  from story_cycle_submit_trace [OF this, of e c]
  show "\<exists>out. fst (story_cycle_submit e c s) =
             Call_gemini (chapter_prompt (spaced ts) (format_optional (world_bible s))
               (py_format e c)) Temperature_0_9 # out"
    by blast
next
  assume call: "Call_gemini p g \<in> set (fst (story_cycle_submit e c s))"
  show "\<exists>us. map chapter_text (story_chapters s) = map JStr us
             \<and> p = chapter_prompt (spaced us) (format_optional (world_bible s)) (py_format e c)
             \<and> g = Temperature_0_9"
  proof (cases "py_join '' '' (map chapter_text (story_chapters s))")
    case (Inl x)
    with call show ?thesis by (simp add: story_cycle_submit_no_context)
  next
    case (Inr joined)
    from py_join_Inr [OF Inr] obtain us
      where us: "map chapter_text (story_chapters s) = map JStr us" ..
    with Inr have j: "py_join '' '' (map chapter_text (story_chapters s)) = Inr (spaced us)"
      by (simp add: py_join_spaced)
    from story_cycle_submit_trace [OF j, of e c] call
    have "p = chapter_prompt (spaced us) (format_optional (world_bible s)) (py_format e c)
          \<and> g = Temperature_0_9"
      by auto
    with us show ?thesis by blast
  qed
next
  show "subseq (concat ts) (spaced ts)" by (rule subseq_spaced)
next
  show "\<exists>a b d f. chapter_prompt ctx wb ch = a @ ch @ b @ ctx @ d @ wb @ f"
    unfolding chapter_prompt_def by blast
qed

theorem story_cycle_context_is_all_chapters_witness:
  "map chapter_text (story_chapters (cycle_state demo_choices))
     = map JStr [opening_line, ''The hatch opened.'']
   \<and> spaced [opening_line, ''The hatch opened.'']
     = ''The last starship captain woke from cryo-sleep. The hatch opened.''
   \<and> (\<exists>out. fst (story_cycle_submit demo_env (JStr ''Stop the clock'') (cycle_state demo_choices))
         = Call_gemini (chapter_prompt
               ''The last starship captain woke from cryo-sleep. The hatch opened.''
               ''A drowned city.'' ''Stop the clock'') Temperature_0_9 # out)
   \<and> Call_gemini (chapter_prompt
               ''The last starship captain woke from cryo-sleep. The hatch opened.''
               ''A drowned city.'' ''Stop the clock'') Temperature_0_9
       \<in> set (fst (story_cycle_submit demo_env (JStr ''Stop the clock'')
                 (cycle_state demo_choices)))"
proof -
  have m: "map chapter_text (story_chapters (cycle_state demo_choices))
     = map JStr [opening_line, ''The hatch opened.'']"
    by (simp add: cycle_state_def)
  have sp: "spaced [opening_line, ''The hatch opened.'']
     = ''The last starship captain woke from cryo-sleep. The hatch opened.''"
    by (simp add: opening_line_def)
  have w: "format_optional (world_bible (cycle_state demo_choices)) = ''A drowned city.''"
    "py_format demo_env (JStr ''Stop the clock'') = ''Stop the clock''"
    by (simp_all add: cycle_state_def format_optional_def py_format_def)
  from story_cycle_context_is_all_chapters
    [of "cycle_state demo_choices" "[opening_line, ''The hatch opened.'']" demo_env
        "JStr ''Stop the clock''"] m
  obtain out where o:
    "fst (story_cycle_submit demo_env (JStr ''Stop the clock'') (cycle_state demo_choices))
         = Call_gemini (chapter_prompt (spaced [opening_line, ''The hatch opened.''])
             (format_optional (world_bible (cycle_state demo_choices)))
             (py_format demo_env (JStr ''Stop the clock''))) Temperature_0_9 # out"
    by blast
  then have o': "fst (story_cycle_submit demo_env (JStr ''Stop the clock'') (cycle_state demo_choices))
         = Call_gemini (chapter_prompt
               ''The last starship captain woke from cryo-sleep. The hatch opened.''
               ''A drowned city.'' ''Stop the clock'') Temperature_0_9 # out"
    by (simp only: sp w)
  have "\<exists>out. fst (story_cycle_submit demo_env (JStr ''Stop the clock'') (cycle_state demo_choices))
         = Call_gemini (chapter_prompt
               ''The last starship captain woke from cryo-sleep. The hatch opened.''
               ''A drowned city.'' ''Stop the clock'') Temperature_0_9 # out"
    using o' by (rule exI)
  moreover have "Call_gemini (chapter_prompt
               ''The last starship captain woke from cryo-sleep. The hatch opened.''
               ''A drowned city.'' ''Stop the clock'') Temperature_0_9
       \<in> set (fst (story_cycle_submit demo_env (JStr ''Stop the clock'')
                 (cycle_state demo_choices)))"
    by (simp only: o' list.set_intros)
  ultimately show ?thesis using m sp by blast
qed








section \<open>The narration script\<close>

lemma replace_char_absent:
  "a \<notin> set new \<Longrightarrow> a \<notin> set (replace [a] new t)"
  by (induction t) auto

lemma safe_text_no_newline: "nl \<notin> set (safe_text t)"
proof -
  have "nl \<notin> set (replace [nl] '' '' (replace [dq] [bs, dq] (replace [sq] [bs, sq] t)))"
    by (rule replace_char_absent) (simp add: nl_def)
  with set_strip show ?thesis unfolding safe_text_def by blast
qed

lemma guarded_any_prev:
  "guarded q prev t \<Longrightarrow> prev \<noteq> bs \<Longrightarrow> guarded q prev' t"
  by (cases t) auto

lemma guarded_prefix: "guarded q prev (xs @ ys) \<Longrightarrow> guarded q prev xs"
  by (induction xs arbitrary: prev) auto

lemma guarded_replace_same: "q \<noteq> bs \<Longrightarrow> guarded q prev (replace [q] [bs, q] t)"
  by (induction t arbitrary: prev) auto

lemma guarded_replace_other:
  "guarded q prev t \<Longrightarrow> r \<noteq> q \<Longrightarrow> q \<noteq> bs \<Longrightarrow>
   guarded q prev (replace [r] [bs, r] t)"
  by (induction t arbitrary: prev) auto

lemma guarded_replace_newline:
  assumes "guarded q prev t" and "q \<noteq> CHR '' ''"
  shows "guarded q prev (replace [nl] '' '' t)"
  using assms
proof (induction t arbitrary: prev)
  case Nil
  show ?case by simp
next
  case (Cons c cs)
  show ?case
  proof (cases "c = nl")
    case True
    from Cons.prems have "guarded q nl cs" using True by simp
    then have "guarded q (CHR '' '') cs"
      by (rule guarded_any_prev) (simp add: nl_def bs_def)
    from Cons.IH [OF this Cons.prems(2)] Cons.prems(2) True show ?thesis by simp
  next
    case False
    with Cons show ?thesis by simp
  qed
qed

lemma guarded_dropWhile:
  "guarded q prev t \<Longrightarrow> prev \<noteq> bs \<Longrightarrow> guarded q prev (dropWhile py_isspace t)"
proof (induction t arbitrary: prev)
  case Nil
  show ?case by simp
next
  case (Cons c cs)
  show ?case
  proof (cases "py_isspace c")
    case True
    then have nb: "c \<noteq> bs" by (auto simp: py_isspace_def bs_def)
    from Cons.prems have "guarded q c cs" by simp
    then have "guarded q prev cs" using nb by (rule guarded_any_prev)
    from Cons.IH [OF this Cons.prems(2)] True show ?thesis by simp
  next
    case False
    with Cons.prems show ?thesis by simp
  qed
qed

lemma guarded_strip:
  assumes "guarded q prev t" and "prev \<noteq> bs"
  shows "guarded q prev (strip t)"
proof -
  let ?d = "dropWhile py_isspace t"
  have "?d = rev (dropWhile py_isspace (rev ?d)) @ rev (takeWhile py_isspace (rev ?d))"
    by (metis rev_append rev_rev_ident takeWhile_dropWhile_id)
  moreover have "guarded q prev ?d" using assms by (rule guarded_dropWhile)
  ultimately have "guarded q prev (rev (dropWhile py_isspace (rev ?d)))"
    by (metis guarded_prefix)
  then show ?thesis by (simp add: strip_def)
qed

lemma safe_text_quotes_backslashed:
  assumes "prev \<noteq> bs"
  shows "guarded dq prev (safe_text t) \<and> guarded sq prev (safe_text t)"
proof -
  have d: "guarded dq prev (replace [dq] [bs, dq] (replace [sq] [bs, sq] t))"
    by (rule guarded_replace_same) (simp add: dq_def bs_def)
  have "guarded sq prev (replace [sq] [bs, sq] t)"
    by (rule guarded_replace_same) (simp add: sq_def bs_def)
  then have s: "guarded sq prev (replace [dq] [bs, dq] (replace [sq] [bs, sq] t))"
    by (rule guarded_replace_other) (simp_all add: dq_def sq_def bs_def)
  from d have "guarded dq prev (replace [nl] '' '' (replace [dq] [bs, dq] (replace [sq] [bs, sq] t)))"
    by (rule guarded_replace_newline) (simp add: dq_def)
  moreover from s
  have "guarded sq prev (replace [nl] '' '' (replace [dq] [bs, dq] (replace [sq] [bs, sq] t)))"
    by (rule guarded_replace_newline) (simp add: sq_def)
  ultimately show ?thesis
    unfolding safe_text_def using assms by (simp add: guarded_strip)
qed

text \<open>
  Claim C10. The claim asks that the text put into the narration script holds no
  unescaped quote. \<open>text_to_speech_player\<close> puts a backslash before every quote
  (\<open>safe_text_quotes_backslashed\<close>) and turns every line feed into a space
  (\<open>safe_text_no_newline\<close>), but it leaves the backslashes of the text as they are. For the text made of a backslash and a double
  quote the script gets two backslashes and the quote: the two backslashes are one
  escaped backslash, and the quote after them is unescaped and ends the string
  literal.
\<close>

theorem safe_text_leaves_backslash:
  "safe_text [bs, dq] = [bs, bs, dq]
   \<and> unescaped (safe_text [bs, dq])
   \<and> text_to_speech_player [bs, dq] = [Html (speech_script [bs, bs, dq])]"
  by (simp add: text_to_speech_player_def safe_text_def strip_def py_isspace_def
        bs_def dq_def sq_def nl_def)



end
